theory Spec2Isabelle
  imports Complex_Main
begin

section \<open>K-fold training orchestration of train\_cls\_xgb.py\<close>

text \<open>
  The development embeds the function \<open>train_kfold\<close> of
  \<^verbatim>\<open>src/gbm_for_event_localization/train_cls_xgb.py\<close> and its helper
  \<open>get_importances\<close>. The libraries the function calls (xgboost, scikit-learn) are not part
  of the repository; they enter as a record of functions, the backend. A finite float32 or
  float64 number of the program is carried as the real number it denotes; \<open>np.mean\<close>, the
  one place where the program computes with such numbers, rounds, and is a function of the
  backend too. Everything the program prints, and every call of the boosting trainer, is
  recorded as a list of events, so that "nothing happened before the failure" is a
  statement about that list.
\<close>

subsection \<open>Data\<close>

text \<open>
  The feature matrix is either a pandas data frame (it has \<open>columns\<close>) or a plain
  two-dimensional array (it has only a shape). Column labels are strings. Every row of a
  well-formed matrix has as many entries as the matrix has columns.
\<close>

datatype features =
    DataFrame "string list" "real list list"
  | NDArray nat "real list list"

text \<open>An xgboost \<open>DMatrix\<close>: the feature array it was built from and the optional labels.\<close>

datatype dmatrix = DMatrix features "real list option"

text \<open>The values of the \<open>params\<close> dictionary.\<close>

datatype pval = PInt int | PReal real | PStr string | PStrs "string list"

type_synonym params = "(string \<times> pval) list"

type_synonym split = "int list \<times> int list"

text \<open>
  The \<open>folds\<close> argument: an integer (\<open>isinstance(folds, int)\<close>) or an iterable of
  (train indices, validation indices) pairs, taken here as the finite list of pairs it
  yields.
\<close>

datatype folds_arg = FoldCount int | FoldSplits "split list"

text \<open>
  The exceptions that leave \<open>train_kfold\<close>, named by the place that raises them:
  \<^item> \<open>AssertPrintImp\<close>: the assertion of line 68 (the spec's \<open>InvalidConfig\<close>);
  \<^item> \<open>CoerceColumns\<close>: the exception of \<open>x_test[columns]\<close>, re-raised at line 87 (the
    spec's \<open>ColumnReorderError\<close>);
  \<^item> \<open>AssertFeatureCount\<close>: the assertion of line 94 (the spec's \<open>ShapeMismatch\<close>);
  \<^item> \<open>SplitterError\<close>: raised by the k-fold generators of scikit-learn;
  \<^item> \<open>IndexError\<close>: an index array reaches out of range (lines 124, 125, 153);
  \<^item> \<open>XGBoostError\<close>: raised by \<open>xgb.train\<close> or \<open>predict\<close>;
  \<^item> \<open>AssertFeatureName\<close>: the assertion of line 24;
  \<^item> \<open>ValueError\<close>: numpy cannot broadcast (line 153) or stack (line 162) its arguments;
  \<^item> \<open>UnboundLocalError\<close>: \<open>del\<close> of a local that was never assigned (line 172).
\<close>

datatype error =
    AssertPrintImp
  | CoerceColumns
  | AssertFeatureCount
  | SplitterError
  | IndexError
  | XGBoostError
  | AssertFeatureName
  | ValueError
  | UnboundLocalError

text \<open>
  What \<open>np.mean(ps_test, axis=0)\<close> returns: a vector, or the scalar \<open>nan\<close> for an empty
  list of vectors.
\<close>

datatype ndarray = NaN | Vector "real list"

text \<open>What the run does besides returning: its prints and its calls of the trainer.\<close>

datatype event =
    PrintCouldNotCoerce
  | PrintTraining folds_arg bool "nat \<times> nat" "(nat \<times> nat) option"
  | PrintRunningFold nat nat nat
  | XgbTrain nat
  | PrintFinishedFold nat real
  | PrintFoldImportances nat "(string \<times> int) list"
  | PrintFinished folds_arg
  | PrintOverallImportances "(string \<times> int) list"

text \<open>
  The external collaborators. \<open>None\<close> is an exception raised by the library.
  \<^item> \<open>xgb_train params d_train nrounds watchlist early_stopping_rounds verbose_eval\<close>
  \<^item> \<open>best_score mdl\<close>
  \<^item> \<open>get_fscore mdl features\<close>: the items of the dictionary \<open>model.get_fscore(fmap)\<close>,
    for the feature map written from \<open>features\<close>
  \<^item> \<open>predict mdl d\<close>: \<open>mdl.predict(d, ntree_limit=mdl.best_ntree_limit)\<close>
  \<^item> \<open>mean_float64 xs\<close>: \<open>np.mean(xs)\<close> for a list of Python floats, in float64 arithmetic
  \<^item> \<open>mean_float32 xs\<close>: the entry that \<open>np.mean(ps, axis=0)\<close> has at a position where
    the float32 vectors \<open>ps\<close> have the entries \<open>xs\<close>, in float32 arithmetic
  \<^item> \<open>KFold_split n_splits random_state x\<close>:
    \<open>KFold(n_splits, shuffle=True, random_state).split(x)\<close>
  \<^item> \<open>StratifiedKFold_split n_splits random_state x y\<close>
\<close>

record 'm backend =
  xgb_train :: "params \<Rightarrow> dmatrix \<Rightarrow> pval \<Rightarrow> (dmatrix \<times> string) list \<Rightarrow> pval \<Rightarrow> pval \<Rightarrow> 'm option"
  best_score :: "'m \<Rightarrow> real"
  get_fscore :: "'m \<Rightarrow> string list \<Rightarrow> (string \<times> int) list"
  predict :: "'m \<Rightarrow> dmatrix \<Rightarrow> real list option"
  mean_float64 :: "real list \<Rightarrow> real"
  mean_float32 :: "real list \<Rightarrow> real"
  KFold_split :: "int \<Rightarrow> int \<Rightarrow> features \<Rightarrow> split list option"
  StratifiedKFold_split :: "int \<Rightarrow> int \<Rightarrow> features \<Rightarrow> real list \<Rightarrow> split list option"

text \<open>The locals of \<open>train_kfold\<close> that the fold loop reads and writes.\<close>

record 'm locals =
  fold_i :: nat
  p_train :: "real list"
  ps_test :: "real list list"
  models :: "'m list"
  scores :: "real list"
  imps :: "(string \<times> int) list"
  d_train :: "dmatrix option"
  d_valid :: "dmatrix option"

subsection \<open>numpy and pandas operations\<close>

fun shape :: "features \<Rightarrow> nat \<times> nat" where
  "shape (DataFrame cs rs) = (length rs, length cs)"
| "shape (NDArray f rs) = (length rs, f)"

fun rows :: "features \<Rightarrow> real list list" where
  "rows (DataFrame cs rs) = rs"
| "rows (NDArray f rs) = rs"

fun asarray :: "features \<Rightarrow> features" where
  "asarray (DataFrame cs rs) = NDArray (length cs) rs"
| "asarray (NDArray f rs) = NDArray f rs"

text \<open>\<open>str\<close> of a natural number, for \<open>np.arange(n).astype(str)\<close>.\<close>

fun str_nat :: "nat \<Rightarrow> string" where
  "str_nat n =
     (if n < 10 then [''0123456789'' ! n]
      else str_nat (n div 10) @ [''0123456789'' ! (n mod 10)])"

declare str_nat.simps [simp del]

text \<open>
  \<open>x_test[columns]\<close> for a list of column labels. A data frame answers with the columns
  of those labels, in the order asked (every column of a label that occurs more than once),
  and raises when a label is missing; an array cannot be indexed by strings.
\<close>

definition positions :: "'a list \<Rightarrow> 'a \<Rightarrow> nat list" where
  "positions xs x = filter (\<lambda>j. xs ! j = x) [0..<length xs]"

fun getitem_columns :: "features \<Rightarrow> string list \<Rightarrow> error + features" where
  "getitem_columns (NDArray f rs) columns = Inl CoerceColumns"
| "getitem_columns (DataFrame cs rs) columns =
     (if list_all (\<lambda>c. c \<in> set cs) columns
      then let js = concat (map (positions cs) columns)
           in Inr (DataFrame (map (\<lambda>j. cs ! j) js) (map (\<lambda>r. map (\<lambda>j. r ! j) js) rs))
      else Inl CoerceColumns)"

text \<open>
  An integer index into an axis of length \<open>n\<close>: negative indices count from the end,
  anything outside \<open>[-n, n)\<close> is an IndexError.
\<close>

definition norm_index :: "nat \<Rightarrow> int \<Rightarrow> nat option" where
  "norm_index n i =
     (if 0 \<le> i \<and> i < int n then Some (nat i)
      else if - int n \<le> i \<and> i < 0 then Some (nat (i + int n))
      else None)"

definition index_ok :: "nat \<Rightarrow> int list \<Rightarrow> bool" where
  "index_ok n idx = list_all (\<lambda>i. norm_index n i \<noteq> None) idx"

text \<open>\<open>a[idx]\<close> along the first axis, for an index array \<open>idx\<close>.\<close>

definition take_idx :: "'a list \<Rightarrow> int list \<Rightarrow> error + 'a list" where
  "take_idx a idx =
     (if index_ok (length a) idx
      then Inr (map (\<lambda>i. a ! the (norm_index (length a) i)) idx)
      else Inl IndexError)"

fun getitem_rows :: "features \<Rightarrow> int list \<Rightarrow> error + features" where
  "getitem_rows (NDArray f rs) idx =
     (case take_idx rs idx of Inl e \<Rightarrow> Inl e | Inr rs' \<Rightarrow> Inr (NDArray f rs'))"
| "getitem_rows (DataFrame cs rs) idx =
     (case take_idx rs idx of Inl e \<Rightarrow> Inl e | Inr rs' \<Rightarrow> Inr (DataFrame cs rs'))"

text \<open>
  \<open>a[idx] = vals\<close>: the values are written in order, so a repeated index keeps the last
  one; a single value is broadcast to every index.
\<close>

fun put :: "nat \<Rightarrow> real list \<Rightarrow> (int \<times> real) list \<Rightarrow> real list" where
  "put n a [] = a"
| "put n a ((i, v) # ivs) = put n (a[the (norm_index n i) := v]) ivs"

definition setitem :: "real list \<Rightarrow> int list \<Rightarrow> real list \<Rightarrow> error + real list" where
  "setitem a idx vals =
     (if \<not> index_ok (length a) idx then Inl IndexError
      else if length vals = length idx then Inr (put (length a) a (zip idx vals))
      else if length vals = 1 then Inr (put (length a) a (map (\<lambda>i. (i, hd vals)) idx))
      else Inl ValueError)"

text \<open>
  \<open>np.mean(ps, axis=0)\<close> for a list of vectors: \<open>nan\<close> for no vector, an exception for
  vectors of different lengths, and else the vector of the means that the backend's float32
  arithmetic gives position by position.
\<close>

definition mean_axis0 :: "'m backend \<Rightarrow> real list list \<Rightarrow> error + ndarray" where
  "mean_axis0 B ps =
     (case ps of
        [] \<Rightarrow> Inr NaN
      | p # _ \<Rightarrow>
          if list_all (\<lambda>q. length q = length p) ps
          then Inr (Vector (map (\<lambda>j. mean_float32 B (map (\<lambda>q. q ! j) ps)) [0..<length p]))
          else Inl ValueError)"

text \<open>\<open>sorted(items, key=lambda x: x[1], reverse=True)\<close>: stable, largest value first.\<close>

definition sorted_by_value :: "(string \<times> int) list \<Rightarrow> (string \<times> int) list" where
  "sorted_by_value items = sort_key (\<lambda>x. - snd x) items"

text \<open>\<open>imps[f] += i\<close> on a \<open>defaultdict(int)\<close>, a dictionary that keeps insertion order.\<close>

fun add_imp :: "(string \<times> int) list \<Rightarrow> string \<Rightarrow> int \<Rightarrow> (string \<times> int) list" where
  "add_imp [] f i = [(f, 0 + i)]"
| "add_imp ((g, v) # d) f i = (if g = f then (g, v + i) # d else (g, v) # add_imp d f i)"

text \<open>\<open>d.get(f, 0)\<close> on the items of a dictionary of importances.\<close>

definition get_or_0 :: "(string \<times> int) list \<Rightarrow> string \<Rightarrow> int" where
  "get_or_0 d f = (case map_of d f of None \<Rightarrow> 0 | Some v \<Rightarrow> v)"

text \<open>\<open>params.get(key, default)\<close>.\<close>

definition params_get :: "params \<Rightarrow> string \<Rightarrow> pval \<Rightarrow> pval" where
  "params_get params k d = (case map_of params k of None \<Rightarrow> d | Some v \<Rightarrow> v)"

subsection \<open>get\_importances (lines 14 to 37)\<close>

text \<open>
  The feature-map file the function writes and removes, and the random number in its name,
  are not modelled; the names in the file are the argument \<open>features\<close> of \<open>get_fscore\<close>.
\<close>

definition get_importances :: "'m backend \<Rightarrow> 'm \<Rightarrow> string list \<Rightarrow> error + (string \<times> int) list" where
  "get_importances B model features =
     (if list_all (\<lambda>feature. CHR 0x0A \<notin> set feature \<and> CHR 0x09 \<notin> set feature) features
      then Inr (sorted_by_value (get_fscore B model features))
      else Inl AssertFeatureName)"

subsection \<open>train\_kfold (lines 39 to 175)\<close>

text \<open>Line 68.\<close>

definition recognized :: "string option \<Rightarrow> bool" where
  "recognized print_imp = (print_imp \<in> set [Some ''every'', Some ''final'', None])"

text \<open>Lines 71 to 76: the column labels, and whether the training set had any.\<close>

fun columns_of :: "features \<Rightarrow> string list" where
  "columns_of (DataFrame cs rs) = cs"
| "columns_of (NDArray f rs) = map str_nat [0..<f]"

fun columns_exists :: "features \<Rightarrow> bool" where
  "columns_exists (DataFrame cs rs) = True"
| "columns_exists (NDArray f rs) = False"

text \<open>
  Lines 81 to 96, on the training array of line 78: the test set as an array, after the
  coercion to the training columns and the check of the feature count.
\<close>

definition check_x_test ::
  "string list \<Rightarrow> bool \<Rightarrow> bool \<Rightarrow> features \<Rightarrow> features option \<Rightarrow> event list \<times> (error + features option)" where
  "check_x_test columns cols_exist skip_checks x_train x_test =
     (case x_test of
        None \<Rightarrow> ([], Inr None)
      | Some xt \<Rightarrow>
          (case (if cols_exist \<and> \<not> skip_checks then getitem_columns xt columns else Inr xt) of
             Inl e \<Rightarrow> ([PrintCouldNotCoerce], Inl e)
           | Inr xt' \<Rightarrow>
               if \<not> skip_checks \<and> snd (shape x_train) \<noteq> snd (shape (asarray xt'))
               then ([], Inl AssertFeatureCount)
               else ([], Inr (Some (asarray xt')))))"

text \<open>Lines 104 to 113. The generators of scikit-learn run when the loop asks for the first pair.\<close>

definition make_splits ::
  "'m backend \<Rightarrow> folds_arg \<Rightarrow> real list option \<Rightarrow> int \<Rightarrow> features \<Rightarrow> error + split list" where
  "make_splits B folds stratify random_state x_train =
     (case folds of
        FoldCount k \<Rightarrow>
          (case stratify of
             Some s \<Rightarrow>
               (case StratifiedKFold_split B k random_state x_train s of
                  None \<Rightarrow> Inl SplitterError | Some splits \<Rightarrow> Inr splits)
           | None \<Rightarrow>
               (case KFold_split B k 4242 x_train of
                  None \<Rightarrow> Inl SplitterError | Some splits \<Rightarrow> Inr splits))
      | FoldSplits splits \<Rightarrow> Inr splits)"

text \<open>Lines 115 to 121.\<close>

definition init_locals :: "real list \<Rightarrow> 'm locals" where
  "init_locals y_train =
     \<lparr>fold_i = 0, p_train = replicate (length y_train) 0, ps_test = [], models = [],
      scores = [], imps = [], d_train = None, d_valid = None\<rparr>"

text \<open>Lines 145 and 146.\<close>

fun add_imps :: "(string \<times> int) list \<Rightarrow> (string \<times> int) list \<Rightarrow> (string \<times> int) list" where
  "add_imps d [] = d"
| "add_imps d ((f, i) # imp) = add_imps (add_imp d f i) imp"

text \<open>Lines 124 and 125: the two matrices of a fold.\<close>

definition fold_data :: "features \<Rightarrow> real list \<Rightarrow> split \<Rightarrow> error + dmatrix \<times> dmatrix" where
  "fold_data x_train y_train sp =
     (case getitem_rows x_train (fst sp) of
        Inl e \<Rightarrow> Inl e
      | Inr x_tr \<Rightarrow>
          (case take_idx y_train (fst sp) of
             Inl e \<Rightarrow> Inl e
           | Inr y_tr \<Rightarrow>
               (case getitem_rows x_train (snd sp) of
                  Inl e \<Rightarrow> Inl e
                | Inr x_va \<Rightarrow>
                    (case take_idx y_train (snd sp) of
                       Inl e \<Rightarrow> Inl e
                     | Inr y_va \<Rightarrow> Inr (DMatrix x_tr (Some y_tr), DMatrix x_va (Some y_va))))))"

text \<open>
  Lines 149 to 156: the predictions of a fold's model, written into \<open>p_train\<close> and appended
  to \<open>ps_test\<close>. \<open>d_test\<close> is \<open>None\<close> exactly when \<open>x_test\<close> is (lines 81 to 96), so the
  tests of \<open>x_test\<close> at lines 150 and 155 read \<open>d_test\<close> here.
\<close>

definition fold_predict ::
  "'m backend \<Rightarrow> 'm \<Rightarrow> dmatrix \<Rightarrow> dmatrix option \<Rightarrow> int list \<Rightarrow> real list \<Rightarrow> real list list \<Rightarrow>
   error + real list \<times> real list list" where
  "fold_predict B mdl dva d_test valid_kf p_tr ps =
     (case predict B mdl dva of
        None \<Rightarrow> Inl XGBoostError
      | Some p_valid \<Rightarrow>
          (case (case d_test of
                   None \<Rightarrow> Inr ps
                 | Some dte \<Rightarrow>
                     (case predict B mdl dte of
                        None \<Rightarrow> Inl XGBoostError
                      | Some p_test \<Rightarrow> Inr (ps @ [p_test]))) of
             Inl e \<Rightarrow> Inl e
           | Inr ps' \<Rightarrow>
               (case setitem p_tr valid_kf p_valid of
                  Inl e \<Rightarrow> Inl e
                | Inr p_tr' \<Rightarrow> Inr (p_tr', ps'))))"

text \<open>Lines 133 and 134.\<close>

definition call_xgb_train :: "'m backend \<Rightarrow> params \<Rightarrow> dmatrix \<Rightarrow> dmatrix \<Rightarrow> 'm option" where
  "call_xgb_train B params dtr dva =
     xgb_train B params dtr (params_get params ''nrounds'' (PInt 100000))
       [(dtr, ''train''), (dva, ''valid'')]
       (params_get params ''early_stopping_rounds'' (PInt 50))
       (params_get params ''verbose_eval'' (PInt 1))"

text \<open>Lines 123 to 159, one pass of the loop.\<close>

definition fold_body ::
  "'m backend \<Rightarrow> params \<Rightarrow> features \<Rightarrow> real list \<Rightarrow> dmatrix option \<Rightarrow> string list \<Rightarrow>
   string option \<Rightarrow> 'm locals \<Rightarrow> split \<Rightarrow> event list \<times> (error + 'm locals)" where
  "fold_body B params x_train y_train d_test columns print_imp st sp =
     (let ev0 = [PrintRunningFold (fold_i st) (length (fst sp)) (length (snd sp))] in
      (case fold_data x_train y_train sp of
         Inl e \<Rightarrow> (ev0, Inl e)
       | Inr (dtr, dva) \<Rightarrow>
           (let ev1 = ev0 @ [XgbTrain (fold_i st)] in
            (case call_xgb_train B params dtr dva of
               None \<Rightarrow> (ev1, Inl XGBoostError)
             | Some mdl \<Rightarrow>
                 (let scores' = scores st @ [best_score B mdl];
                      ev2 = ev1 @ [PrintFinishedFold (fold_i st) (mean_float64 B scores')] in
                  (case get_importances B mdl columns of
                     Inl e \<Rightarrow> (ev2, Inl e)
                   | Inr imp \<Rightarrow>
                       (let ev3 = ev2 @ (if print_imp = Some ''every''
                                         then [PrintFoldImportances (fold_i st) imp] else []) in
                        (case fold_predict B mdl dva d_test (snd sp) (p_train st) (ps_test st) of
                           Inl e \<Rightarrow> (ev3, Inl e)
                         | Inr (p_train', ps_test') \<Rightarrow>
                             (ev3, Inr \<lparr>fold_i = fold_i st + 1, p_train = p_train',
                                        ps_test = ps_test', models = models st @ [mdl],
                                        scores = scores', imps = add_imps (imps st) imp,
                                        d_train = Some dtr, d_valid = Some dva\<rparr>)))))))))"

text \<open>Line 122: the loop over the pairs, leaving at the first exception.\<close>

fun fold_loop ::
  "'m backend \<Rightarrow> params \<Rightarrow> features \<Rightarrow> real list \<Rightarrow> dmatrix option \<Rightarrow> string list \<Rightarrow>
   string option \<Rightarrow> 'm locals \<Rightarrow> split list \<Rightarrow> event list \<times> (error + 'm locals)" where
  "fold_loop B params x_train y_train d_test columns print_imp st [] = ([], Inr st)"
| "fold_loop B params x_train y_train d_test columns print_imp st (sp # splits) =
     (case fold_body B params x_train y_train d_test columns print_imp st sp of
        (ev, Inl e) \<Rightarrow> (ev, Inl e)
      | (ev, Inr st') \<Rightarrow>
          (case fold_loop B params x_train y_train d_test columns print_imp st' splits of
             (ev', r) \<Rightarrow> (ev @ ev', r)))"

text \<open>
  Lines 161 to 175. The returned tuple is \<open>(models, p_train, p_test, imps, scores)\<close>.
  \<open>del d_train, d_valid\<close> raises when the loop never assigned them.
\<close>

type_synonym 'm result =
  "'m list \<times> real list \<times> ndarray option \<times> (string \<times> int) list \<times> real list"

definition finish ::
  "'m backend \<Rightarrow> folds_arg \<Rightarrow> dmatrix option \<Rightarrow> string option \<Rightarrow> 'm locals \<Rightarrow>
   event list \<times> (error + 'm result)" where
  "finish B folds d_test print_imp st =
     (case (case d_test of
              None \<Rightarrow> Inr None
            | Some dte \<Rightarrow>
                (case mean_axis0 B (ps_test st) of Inl e \<Rightarrow> Inl e | Inr m \<Rightarrow> Inr (Some m))) of
        Inl e \<Rightarrow> ([], Inl e)
      | Inr p_test \<Rightarrow>
          let ev = [PrintFinished folds] @
                   (if print_imp \<in> set [Some ''every'', Some ''final'']
                    then [PrintOverallImportances (sorted_by_value (imps st))] else []) in
          if d_train st = None \<or> d_valid st = None then (ev, Inl UnboundLocalError)
          else (ev, Inr (models st, p_train st, p_test, imps st, scores st)))"

definition train_kfold ::
  "'m backend \<Rightarrow> params \<Rightarrow> features \<Rightarrow> real list \<Rightarrow> features option \<Rightarrow> folds_arg \<Rightarrow>
   real list option \<Rightarrow> int \<Rightarrow> bool \<Rightarrow> string option \<Rightarrow> event list \<times> (error + 'm result)" where
  "train_kfold B params x_train y_train x_test folds stratify random_state skip_checks print_imp =
     (if \<not> recognized print_imp then ([], Inl AssertPrintImp)
      else
        let columns = columns_of x_train;
            x_tr = asarray x_train in
        (case check_x_test columns (columns_exists x_train) skip_checks x_tr x_test of
           (ev1, Inl e) \<Rightarrow> (ev1, Inl e)
         | (ev1, Inr x_te) \<Rightarrow>
             (let d_test = map_option (\<lambda>x. DMatrix x None) x_te;
                  ev2 = ev1 @ [PrintTraining folds (stratify \<noteq> None) (shape x_tr)
                                 (map_option shape x_te)] in
              (case make_splits B folds stratify random_state x_tr of
                 Inl e \<Rightarrow> (ev2, Inl e)
               | Inr splits \<Rightarrow>
                   (case fold_loop B params x_tr y_train d_test columns print_imp
                           (init_locals y_train) splits of
                      (ev3, Inl e) \<Rightarrow> (ev2 @ ev3, Inl e)
                    | (ev3, Inr st) \<Rightarrow>
                        (case finish B folds d_test print_imp st of
                           (ev4, r) \<Rightarrow> (ev2 @ ev3 @ ev4, r)))))))"

subsection \<open>A small backend for concrete runs\<close>

text \<open>
  Binary floating point: \<open>round_float p emin x\<close> is the number with \<open>p\<close> fraction bits and
  an exponent of at least \<open>emin\<close> that is nearest to \<open>x\<close>, the even one of two nearest.
  Float32 has \<open>p = 23\<close> and \<open>emin = -126\<close>, float64 has \<open>p = 52\<close> and \<open>emin = -1022\<close>.
  Overflow to infinity is left out. \<open>float_mean\<close> adds the numbers one after the other,
  rounding each sum, and rounds the quotient by their count, as numpy's mean does for the
  few summands of the runs below.
\<close>

definition round_half_even :: "real \<Rightarrow> int" where
  "round_half_even x =
     (let f = \<lfloor>x\<rfloor> in
      if x - of_int f < 1 / 2 then f
      else if 1 / 2 < x - of_int f then f + 1
      else if even f then f else f + 1)"

definition round_float :: "nat \<Rightarrow> int \<Rightarrow> real \<Rightarrow> real" where
  "round_float p emin x =
     (if x = 0 then 0
      else let e = max \<lfloor>log 2 \<bar>x\<bar>\<rfloor> emin;
               q = 2 powr (of_int e - of_nat p)
           in of_int (round_half_even (x / q)) * q)"

definition float_mean :: "nat \<Rightarrow> int \<Rightarrow> real list \<Rightarrow> real" where
  "float_mean p emin xs =
     round_float p emin (foldl (\<lambda>s x. round_float p emin (s + x)) 0 xs / real (length xs))"

text \<open>
  A model is the sum of its training labels; it predicts that sum plus the sum of a row's
  features, uses every feature twice, and scores the sum itself. The k-fold generators
  yield two folds over the rows 0 and 1 whose order depends on the seed. The means are
  those of float64 and float32.
\<close>

fun demo_train ::
  "params \<Rightarrow> dmatrix \<Rightarrow> pval \<Rightarrow> (dmatrix \<times> string) list \<Rightarrow> pval \<Rightarrow> pval \<Rightarrow> real option" where
  "demo_train ps (DMatrix x (Some y)) nrounds watchlist early verbose = Some (sum_list y)"
| "demo_train ps (DMatrix x None) nrounds watchlist early verbose = None"

fun demo_predict :: "real \<Rightarrow> dmatrix \<Rightarrow> real list option" where
  "demo_predict m (DMatrix x y) = Some (map (\<lambda>r. m + sum_list r) (rows x))"

definition demo_kfold :: "int \<Rightarrow> int \<Rightarrow> features \<Rightarrow> split list option" where
  "demo_kfold k seed x =
     (if k < 2 then None
      else if even seed then Some [([0], [1]), ([1], [0])] else Some [([1], [0]), ([0], [1])])"

definition demo_backend :: "real backend" where
  "demo_backend =
     \<lparr>xgb_train = demo_train, best_score = (\<lambda>m. m),
      get_fscore = (\<lambda>m features. map (\<lambda>f. (f, 2)) features),
      predict = demo_predict, mean_float64 = float_mean 52 (- 1022),
      mean_float32 = float_mean 23 (- 126), KFold_split = demo_kfold,
      StratifiedKFold_split = (\<lambda>k seed x y. demo_kfold k seed x)\<rparr>"

section \<open>Properties\<close>

subsection \<open>Rounding\<close>

lemma round_half_even_of_int: "round_half_even (of_int m) = m"
  by (simp add: round_half_even_def)

lemma round_float_eval:
  assumes "2 ^ e \<le> \<bar>x\<bar>" and "\<bar>x\<bar> < 2 * 2 ^ e" and "emin \<le> int e" and "e \<le> p"
  shows "round_float p emin x = of_int (round_half_even (x * 2 ^ (p - e))) / 2 ^ (p - e)"
proof -
  have "(0::real) < 2 ^ e" by simp
  with assms(1) have pos: "0 < \<bar>x\<bar>" by linarith
  then have x0: "x \<noteq> 0" by auto
  have p1: "(2::real) powr of_int (int e) = 2 ^ e"
    by (simp add: powr_realpow)
  have "(2::real) powr real (Suc e) = 2 ^ Suc e"
    by (rule powr_realpow) simp
  then have p2: "(2::real) powr of_int (int e + 1) = 2 * 2 ^ e"
    by (simp add: add.commute)
  have "2 powr of_int (int e) \<le> \<bar>x\<bar> \<and> \<bar>x\<bar> < 2 powr of_int (int e + 1)"
    unfolding p1 p2 using assms(1,2) by simp
  then have "\<lfloor>log 2 \<bar>x\<bar>\<rfloor> = int e"
    using floor_log_eq_powr_iff[of "\<bar>x\<bar>" 2 "int e"] pos by simp
  with assms(3) have e: "max \<lfloor>log 2 \<bar>x\<bar>\<rfloor> emin = int e" by simp
  have "of_int (int e) - real p = - real (p - e)" using assms(4) by simp
  then have "(2::real) powr (of_int (int e) - of_nat p) = 2 powr (- real (p - e))"
    by (simp only:)
  also have "\<dots> = inverse (2 powr real (p - e))" by (rule powr_minus)
  also have "\<dots> = inverse (2 ^ (p - e))" by (simp only: powr_realpow zero_less_numeral)
  finally have q: "(2::real) powr (of_int (int e) - of_nat p) = inverse (2 ^ (p - e))" .
  have "round_float p emin x =
          of_int (round_half_even (x / 2 powr (of_int (int e) - of_nat p))) *
            2 powr (of_int (int e) - of_nat p)"
    unfolding round_float_def Let_def e using x0 by (simp only: if_False)
  also have "\<dots> = of_int (round_half_even (x * 2 ^ (p - e))) / 2 ^ (p - e)"
    unfolding q by (simp only: divide_inverse inverse_inverse_eq)
  finally show ?thesis .
qed

lemma round_float_exact:
  assumes "2 ^ e \<le> \<bar>x\<bar>" and "\<bar>x\<bar> < 2 * 2 ^ e" and "emin \<le> int e" and "e \<le> p"
    and "x * 2 ^ (p - e) = of_int m"
  shows "round_float p emin x = x"
proof -
  have "round_float p emin x = of_int m / 2 ^ (p - e)"
    using round_float_eval[OF assms(1-4)] by (simp add: assms(5) round_half_even_of_int)
  also have "\<dots> = x" using assms(5)[symmetric] by simp
  finally show ?thesis .
qed

text \<open>The float32 roundings of the runs below; one sum falls between two float32 numbers.\<close>

lemma float32_exact:
  "round_float 23 (- 126) 1 = 1"
  "round_float 23 (- 126) 5 = 5"
  "round_float 23 (- 126) 8 = 8"
  "round_float 23 (- 126) 10 = 10"
  "round_float 23 (- 126) 11 = 11"
  "round_float 23 (- 126) 17 = 17"
  "round_float 23 (- 126) 21 = 21"
  "round_float 23 (- 126) (11 / 2) = 11 / 2"
  "round_float 23 (- 126) (17 / 2) = 17 / 2"
  "round_float 23 (- 126) (21 / 2) = 21 / 2"
proof -
  show "round_float 23 (- 126) 1 = 1"
    by (rule round_float_exact[where e = 0 and m = "2 ^ 23"]) simp_all
  show "round_float 23 (- 126) 5 = 5"
    by (rule round_float_exact[where e = 2 and m = "5 * 2 ^ 21"]) simp_all
  show "round_float 23 (- 126) 8 = 8"
    by (rule round_float_exact[where e = 3 and m = "2 ^ 23"]) simp_all
  show "round_float 23 (- 126) 10 = 10"
    by (rule round_float_exact[where e = 3 and m = "10 * 2 ^ 20"]) simp_all
  show "round_float 23 (- 126) 11 = 11"
    by (rule round_float_exact[where e = 3 and m = "11 * 2 ^ 20"]) simp_all
  show "round_float 23 (- 126) 17 = 17"
    by (rule round_float_exact[where e = 4 and m = "17 * 2 ^ 19"]) simp_all
  show "round_float 23 (- 126) 21 = 21"
    by (rule round_float_exact[where e = 4 and m = "21 * 2 ^ 19"]) simp_all
  show "round_float 23 (- 126) (11 / 2) = 11 / 2"
    by (rule round_float_exact[where e = 2 and m = "11 * 2 ^ 20"]) simp_all
  show "round_float 23 (- 126) (17 / 2) = 17 / 2"
    by (rule round_float_exact[where e = 3 and m = "17 * 2 ^ 19"]) simp_all
  show "round_float 23 (- 126) (21 / 2) = 21 / 2"
    by (rule round_float_exact[where e = 3 and m = "21 * 2 ^ 19"]) simp_all
qed

lemma float32_tie: "round_float 23 (- 126) (16777217 / 8388608) = 2"
  by (subst round_float_eval[where e = 1]) (simp_all add: round_half_even_def)

text \<open>The definitions that a concrete run unfolds.\<close>

lemmas run_simps =
  train_kfold_def recognized_def check_x_test_def make_splits_def init_locals_def
  fold_body_def fold_data_def fold_predict_def call_xgb_train_def finish_def
  take_idx_def index_ok_def norm_index_def setitem_def mean_axis0_def
  get_importances_def sorted_by_value_def params_get_def demo_backend_def demo_kfold_def
  positions_def str_nat.simps Let_def float_mean_def float32_exact float32_tie

subsection \<open>Index arrays\<close>

lemma norm_index_less: "norm_index n j = Some i \<Longrightarrow> i < n"
  by (auto simp: norm_index_def split: if_splits)

lemma length_put: "length (put n a ivs) = length a"
  by (induction ivs arbitrary: a) auto

lemma put_untouched:
  "\<forall>jv\<in>set ivs. norm_index n (fst jv) \<noteq> None \<and> norm_index n (fst jv) \<noteq> Some i \<Longrightarrow>
   put n a ivs ! i = a ! i"
proof (induction ivs arbitrary: a)
  case Nil
  then show ?case by simp
next
  case (Cons jv ivs)
  obtain j v where jv: "jv = (j, v)" by (cases jv)
  from Cons.prems jv obtain k where k: "norm_index n j = Some k" "k \<noteq> i" by auto
  from Cons.prems have "put n (a[k := v]) ivs ! i = (a[k := v]) ! i"
    by (intro Cons.IH) simp
  with k jv show ?case by simp
qed

lemma put_touched:
  assumes "\<forall>jv\<in>set ivs. norm_index n (fst jv) \<noteq> None"
    and "\<exists>jv\<in>set ivs. norm_index n (fst jv) = Some i"
    and "length a = length b" and "i < length a"
  shows "put n a ivs ! i = put n b ivs ! i"
  using assms
proof (induction ivs arbitrary: a b)
  case Nil
  then show ?case by simp
next
  case (Cons jv ivs)
  obtain j v where jv: "jv = (j, v)" by (cases jv)
  from Cons.prems(1) jv obtain k where k: "norm_index n j = Some k" by auto
  show ?case
  proof (cases "\<exists>jv\<in>set ivs. norm_index n (fst jv) = Some i")
    case True
    with Cons.prems have "put n (a[k := v]) ivs ! i = put n (b[k := v]) ivs ! i"
      by (intro Cons.IH) simp_all
    with k jv show ?thesis by simp
  next
    case False
    with Cons.prems(2) jv k have ki: "k = i" by auto
    from False Cons.prems(1)
    have un: "\<forall>jv\<in>set ivs. norm_index n (fst jv) \<noteq> None \<and> norm_index n (fst jv) \<noteq> Some i"
      by auto
    have "put n (a[k := v]) ivs ! i = (a[k := v]) ! i"
      and "put n (b[k := v]) ivs ! i = (b[k := v]) ! i"
      using un by (rule put_untouched)+
    with ki Cons.prems(3,4) k jv show ?thesis by simp
  qed
qed

lemma index_ok_iff: "index_ok n idx \<longleftrightarrow> (\<forall>j\<in>set idx. norm_index n j \<noteq> None)"
  by (simp add: index_ok_def list_all_iff)

lemma setitem_length: "setitem a idx vals = Inr a' \<Longrightarrow> length a' = length a"
  by (auto simp: setitem_def length_put split: if_splits)

lemma setitem_Inr:
  assumes "setitem a idx vals = Inr a'"
  obtains ivs where "a' = put (length a) a ivs" and "fst ` set ivs = set idx"
    and "\<forall>j\<in>set idx. norm_index (length a) j \<noteq> None"
    and "\<forall>b. length b = length a \<longrightarrow> setitem b idx vals = Inr (put (length a) b ivs)"
proof (cases "length vals = length idx")
  case True
  with assms have "a' = put (length a) a (zip idx vals)" and "index_ok (length a) idx"
    by (auto simp: setitem_def split: if_splits)
  moreover from True have "fst ` set (zip idx vals) = set idx"
    by (metis map_fst_zip set_map)
  ultimately show ?thesis using True that[of "zip idx vals"]
    by (simp add: setitem_def index_ok_iff)
next
  case False
  with assms have "a' = put (length a) a (map (\<lambda>i. (i, hd vals)) idx)"
    and "index_ok (length a) idx" and "length vals = 1"
    by (auto simp: setitem_def split: if_splits)
  moreover have "fst ` set (map (\<lambda>i. (i, hd vals)) idx) = set idx"
    by (simp add: image_image)
  ultimately show ?thesis using False that[of "map (\<lambda>i. (i, hd vals)) idx"]
    by (simp add: setitem_def index_ok_iff)
qed

lemma setitem_untouched:
  assumes "setitem a idx vals = Inr a'" and "Some i \<notin> norm_index (length a) ` set idx"
  shows "a' ! i = a ! i"
proof -
  from assms(1) obtain ivs where a': "a' = put (length a) a ivs"
    and ivs: "fst ` set ivs = set idx"
    and ok: "\<forall>j\<in>set idx. norm_index (length a) j \<noteq> None"
    by (rule setitem_Inr)
  have "\<forall>jv\<in>set ivs. norm_index (length a) (fst jv) \<noteq> None \<and> norm_index (length a) (fst jv) \<noteq> Some i"
  proof
    fix jv assume "jv \<in> set ivs"
    with ivs have "fst jv \<in> set idx" by auto
    with ok assms(2) show "norm_index (length a) (fst jv) \<noteq> None \<and> norm_index (length a) (fst jv) \<noteq> Some i"
      by (metis image_eqI)
  qed
  then show ?thesis unfolding a' by (rule put_untouched)
qed

lemma setitem_touched:
  assumes "setitem a idx vals = Inr a'" and "Some i \<in> norm_index (length a) ` set idx"
    and "length b = length a"
  shows "\<exists>b'. setitem b idx vals = Inr b' \<and> b' ! i = a' ! i"
proof -
  from assms(1) obtain ivs where a': "a' = put (length a) a ivs"
    and ivs: "fst ` set ivs = set idx"
    and ok: "\<forall>j\<in>set idx. norm_index (length a) j \<noteq> None"
    and b': "\<forall>b. length b = length a \<longrightarrow> setitem b idx vals = Inr (put (length a) b ivs)"
    by (rule setitem_Inr)
  from assms(2) obtain j where j: "j \<in> set idx" "norm_index (length a) j = Some i" by auto
  then have i: "i < length a" by (auto dest: norm_index_less)
  from ok ivs have 1: "\<forall>jv\<in>set ivs. norm_index (length a) (fst jv) \<noteq> None" by auto
  from j ivs have 2: "\<exists>jv\<in>set ivs. norm_index (length a) (fst jv) = Some i" by force
  from put_touched[OF 1 2 assms(3)[symmetric]] i assms(3) b'[rule_format, OF assms(3)] a'
  show ?thesis by simp
qed

subsection \<open>One pass of the loop\<close>

lemma get_importances_Inr:
  "get_importances B mdl cols = Inr imp \<Longrightarrow> imp = sorted_by_value (get_fscore B mdl cols)"
  by (simp add: get_importances_def split: if_splits)

lemma fold_predict_Inr:
  assumes "fold_predict B mdl dva d_test valid_kf p_tr ps = Inr (p_tr', ps')"
  obtains p_valid where "predict B mdl dva = Some p_valid"
    and "setitem p_tr valid_kf p_valid = Inr p_tr'"
    and "ps' = ps @ (case d_test of None \<Rightarrow> [] | Some dte \<Rightarrow> [the (predict B mdl dte)])"
    and "\<forall>dte. d_test = Some dte \<longrightarrow> predict B mdl dte \<noteq> None"
  using assms
  by (auto simp: fold_predict_def split: option.splits sum.splits)

lemma fold_body_Inr:
  assumes "snd (fold_body B params x y d_test cols pm st sp) = Inr st'"
  obtains dtr dva mdl p_tr' ps' where "fold_data x y sp = Inr (dtr, dva)"
    and "call_xgb_train B params dtr dva = Some mdl"
    and "get_importances B mdl cols = Inr (sorted_by_value (get_fscore B mdl cols))"
    and "fold_predict B mdl dva d_test (snd sp) (p_train st) (ps_test st) = Inr (p_tr', ps')"
    and "st' = \<lparr>fold_i = fold_i st + 1, p_train = p_tr', ps_test = ps',
                 models = models st @ [mdl], scores = scores st @ [best_score B mdl],
                 imps = add_imps (imps st) (sorted_by_value (get_fscore B mdl cols)),
                 d_train = Some dtr, d_valid = Some dva\<rparr>"
proof (cases "fold_data x y sp")
  case (Inl e)
  with assms show ?thesis by (simp add: fold_body_def Let_def)
next
  case (Inr dd)
  obtain dtr dva where dd: "dd = (dtr, dva)" by (cases dd)
  show ?thesis
  proof (cases "call_xgb_train B params dtr dva")
    case None
    with assms Inr dd show ?thesis by (simp add: fold_body_def Let_def)
  next
    case (Some mdl)
    show ?thesis
    proof (cases "get_importances B mdl cols")
      case (Inl e)
      with assms Inr dd Some show ?thesis by (simp add: fold_body_def Let_def)
    next
      case imp: (Inr imp)
      then have imp_eq: "imp = sorted_by_value (get_fscore B mdl cols)"
        by (rule get_importances_Inr)
      show ?thesis
      proof (cases "fold_predict B mdl dva d_test (snd sp) (p_train st) (ps_test st)")
        case (Inl e)
        with assms Inr dd Some imp show ?thesis by (simp add: fold_body_def Let_def)
      next
        case pr: (Inr pp)
        obtain p_tr' ps' where pp: "pp = (p_tr', ps')" by (cases pp)
        from assms Inr dd Some imp pr pp imp_eq show ?thesis
          by (intro that[of dtr dva mdl p_tr' ps']) (auto simp: fold_body_def Let_def)
      qed
    qed
  qed
qed

lemma fold_loop_Cons_Inr:
  assumes "snd (fold_loop B params x y d_test cols pm st (sp # splits)) = Inr st''"
  obtains st' where "snd (fold_body B params x y d_test cols pm st sp) = Inr st'"
    and "snd (fold_loop B params x y d_test cols pm st' splits) = Inr st''"
  using assms by (auto split: prod.splits sum.splits)

subsection \<open>The accumulators after the loop\<close>

lemma fold_loop_models:
  assumes "snd (fold_loop B params x y d_test cols pm st splits) = Inr st'"
  shows "\<exists>ms. length ms = length splits \<and> models st' = models st @ ms \<and>
           scores st' = scores st @ map (best_score B) ms \<and>
           ps_test st' = ps_test st @
             (case d_test of None \<Rightarrow> [] | Some dte \<Rightarrow> map (\<lambda>m. the (predict B m dte)) ms) \<and>
           (\<forall>dte. d_test = Some dte \<longrightarrow> (\<forall>m\<in>set ms. predict B m dte \<noteq> None)) \<and>
           imps st' = fold (\<lambda>m d. add_imps d (sorted_by_value (get_fscore B m cols))) ms (imps st)"
  using assms
proof (induction splits arbitrary: st)
  case Nil
  then show ?case by (simp split: option.splits)
next
  case (Cons sp splits)
  from Cons.prems obtain st1 where b: "snd (fold_body B params x y d_test cols pm st sp) = Inr st1"
    and l: "snd (fold_loop B params x y d_test cols pm st1 splits) = Inr st'"
    by (rule fold_loop_Cons_Inr)
  from b obtain dtr dva mdl p_tr' ps' where
    pr: "fold_predict B mdl dva d_test (snd sp) (p_train st) (ps_test st) = Inr (p_tr', ps')"
    and st1: "st1 = \<lparr>fold_i = fold_i st + 1, p_train = p_tr', ps_test = ps',
                 models = models st @ [mdl], scores = scores st @ [best_score B mdl],
                 imps = add_imps (imps st) (sorted_by_value (get_fscore B mdl cols)),
                 d_train = Some dtr, d_valid = Some dva\<rparr>"
    by (rule fold_body_Inr)
  from pr obtain p_valid where
    ps': "ps' = ps_test st @ (case d_test of None \<Rightarrow> [] | Some dte \<Rightarrow> [the (predict B mdl dte)])"
    and ok: "\<forall>dte. d_test = Some dte \<longrightarrow> predict B mdl dte \<noteq> None"
    by (rule fold_predict_Inr)
  from Cons.IH[OF l] obtain ms where ms: "length ms = length splits"
    "models st' = models st1 @ ms" "scores st' = scores st1 @ map (best_score B) ms"
    "ps_test st' = ps_test st1 @
       (case d_test of None \<Rightarrow> [] | Some dte \<Rightarrow> map (\<lambda>m. the (predict B m dte)) ms)"
    "\<forall>dte. d_test = Some dte \<longrightarrow> (\<forall>m\<in>set ms. predict B m dte \<noteq> None)"
    "imps st' = fold (\<lambda>m d. add_imps d (sorted_by_value (get_fscore B m cols))) ms (imps st1)"
    by blast
  show ?case
  proof (intro exI[of _ "mdl # ms"] conjI)
    show "length (mdl # ms) = length (sp # splits)" using ms(1) by simp
    show "models st' = models st @ mdl # ms" using ms(2) st1 by simp
    show "scores st' = scores st @ map (best_score B) (mdl # ms)" using ms(3) st1 by simp
    show "ps_test st' = ps_test st @
       (case d_test of None \<Rightarrow> [] | Some dte \<Rightarrow> map (\<lambda>m. the (predict B m dte)) (mdl # ms))"
      using ms(4) st1 ps' by (simp split: option.splits)
    show "\<forall>dte. d_test = Some dte \<longrightarrow> (\<forall>m\<in>set (mdl # ms). predict B m dte \<noteq> None)"
      using ms(5) ok by simp
    show "imps st' = fold (\<lambda>m d. add_imps d (sorted_by_value (get_fscore B m cols))) (mdl # ms) (imps st)"
      using ms(6) st1 by simp
  qed
qed

lemma fold_loop_bound:
  assumes "snd (fold_loop B params x y d_test cols pm st splits) = Inr st'" and "splits \<noteq> []"
  shows "d_train st' \<noteq> None \<and> d_valid st' \<noteq> None"
  using assms
proof (induction splits arbitrary: st)
  case Nil
  then show ?case by simp
next
  case (Cons sp splits)
  from Cons.prems(1) obtain st1 where b: "snd (fold_body B params x y d_test cols pm st sp) = Inr st1"
    and l: "snd (fold_loop B params x y d_test cols pm st1 splits) = Inr st'"
    by (rule fold_loop_Cons_Inr)
  from b have st1: "d_train st1 \<noteq> None \<and> d_valid st1 \<noteq> None"
    by (rule fold_body_Inr) simp
  show ?case
  proof (cases splits)
    case Nil
    with l st1 show ?thesis by simp
  next
    case (Cons a list)
    with Cons.IH[OF l] show ?thesis by simp
  qed
qed

lemma fold_loop_p_train:
  assumes "snd (fold_loop B params x y d_test cols pm st splits) = Inr st'"
  shows "length (p_train st') = length (p_train st) \<and>
         ((\<forall>sp\<in>set splits. Some i \<notin> norm_index (length (p_train st)) ` set (snd sp)) \<longrightarrow>
          p_train st' ! i = p_train st ! i)"
  using assms
proof (induction splits arbitrary: st)
  case Nil
  then show ?case by simp
next
  case (Cons sp splits)
  from Cons.prems obtain st1 where b: "snd (fold_body B params x y d_test cols pm st sp) = Inr st1"
    and l: "snd (fold_loop B params x y d_test cols pm st1 splits) = Inr st'"
    by (rule fold_loop_Cons_Inr)
  from b obtain dtr dva mdl p_tr' ps' where
    pr: "fold_predict B mdl dva d_test (snd sp) (p_train st) (ps_test st) = Inr (p_tr', ps')"
    and st1: "st1 = \<lparr>fold_i = fold_i st + 1, p_train = p_tr', ps_test = ps',
                 models = models st @ [mdl], scores = scores st @ [best_score B mdl],
                 imps = add_imps (imps st) (sorted_by_value (get_fscore B mdl cols)),
                 d_train = Some dtr, d_valid = Some dva\<rparr>"
    by (rule fold_body_Inr)
  from pr obtain p_valid where si: "setitem (p_train st) (snd sp) p_valid = Inr p_tr'"
    by (rule fold_predict_Inr)
  from st1 have p1: "p_train st1 = p_tr'" by simp
  from si have len: "length p_tr' = length (p_train st)" by (rule setitem_length)
  from Cons.IH[OF l] p1 len have IH: "length (p_train st') = length (p_train st)"
    "(\<forall>sp\<in>set splits. Some i \<notin> norm_index (length (p_train st)) ` set (snd sp)) \<longrightarrow>
          p_train st' ! i = p_tr' ! i"
    by simp_all
  show ?case
  proof (intro conjI impI)
    show "length (p_train st') = length (p_train st)" by (rule IH(1))
    assume un: "\<forall>sp\<in>set (sp # splits). Some i \<notin> norm_index (length (p_train st)) ` set (snd sp)"
    then have "p_train st' ! i = p_tr' ! i" using IH(2) by simp
    also from un have "p_tr' ! i = p_train st ! i"
      by (intro setitem_untouched[OF si]) simp
    finally show "p_train st' ! i = p_train st ! i" .
  qed
qed

subsection \<open>The result of a whole run\<close>

lemma shape_asarray: "shape (asarray x) = shape x"
  by (cases x) simp_all

lemma snd_fold_loop_Cons:
  "snd (fold_loop B params x y d_test cols pm st (sp # splits)) =
     (case snd (fold_body B params x y d_test cols pm st sp) of
        Inl e \<Rightarrow> Inl e
      | Inr st' \<Rightarrow> snd (fold_loop B params x y d_test cols pm st' splits))"
  by (simp split: prod.splits sum.splits)

lemma snd_train_kfold:
  "snd (train_kfold B params x_train y_train x_test folds stratify random_state skip_checks pm) =
     (if \<not> recognized pm then Inl AssertPrintImp
      else
        (case snd (check_x_test (columns_of x_train) (columns_exists x_train) skip_checks
                     (asarray x_train) x_test) of
           Inl e \<Rightarrow> Inl e
         | Inr x_te \<Rightarrow>
             (case make_splits B folds stratify random_state (asarray x_train) of
                Inl e \<Rightarrow> Inl e
              | Inr splits \<Rightarrow>
                  (case snd (fold_loop B params (asarray x_train) y_train
                               (map_option (\<lambda>x. DMatrix x None) x_te) (columns_of x_train) pm
                               (init_locals y_train) splits) of
                     Inl e \<Rightarrow> Inl e
                   | Inr st \<Rightarrow>
                       snd (finish B folds (map_option (\<lambda>x. DMatrix x None) x_te) pm st)))))"
  by (simp add: train_kfold_def Let_def split: prod.splits sum.splits)


lemma finish_Inr:
  assumes "snd (finish B folds d_test pm st) = Inr r"
  shows "\<exists>p_test. r = (models st, p_train st, p_test, imps st, scores st) \<and>
           d_train st \<noteq> None \<and> d_valid st \<noteq> None \<and>
           (d_test = None \<longrightarrow> p_test = None) \<and>
           (d_test \<noteq> None \<longrightarrow> (\<exists>m. mean_axis0 B (ps_test st) = Inr m \<and> p_test = Some m))"
  using assms
  by (auto simp: finish_def Let_def split: option.splits sum.splits if_splits)

lemma train_kfold_Inr:
  assumes "snd (train_kfold B params x_train y_train x_test folds stratify random_state
                  skip_checks pm) = Inr r"
  obtains x_te splits st where "recognized pm"
    and "snd (check_x_test (columns_of x_train) (columns_exists x_train) skip_checks
               (asarray x_train) x_test) = Inr x_te"
    and "make_splits B folds stratify random_state (asarray x_train) = Inr splits"
    and "snd (fold_loop B params (asarray x_train) y_train
               (map_option (\<lambda>x. DMatrix x None) x_te) (columns_of x_train) pm
               (init_locals y_train) splits) = Inr st"
    and "snd (finish B folds (map_option (\<lambda>x. DMatrix x None) x_te) pm st) = Inr r"
  using assms unfolding snd_train_kfold
  by (auto split: if_splits sum.splits)

subsection \<open>Failures before the first fold\<close>


text \<open>
  C3. A call whose \<open>print_imp\<close> is none of \<open>'every'\<close>, \<open>'final'\<close>, \<open>None\<close> fails with the
  assertion of line 68 (the spec's \<open>InvalidConfig\<close>) and has done nothing before: its list
  of events is empty, so no fold was trained and nothing was printed, and no accumulator
  is returned.
\<close>

theorem invalid_print_imp_fails_first:
  "print_imp \<notin> {Some ''every'', Some ''final'', None} \<Longrightarrow>
   train_kfold B params x_train y_train x_test folds stratify random_state skip_checks print_imp
     = ([], Inl AssertPrintImp)"
  by (simp add: train_kfold_def recognized_def)

theorem invalid_print_imp_fails_first_witness:
  "train_kfold demo_backend [] (NDArray 1 [[1], [2]]) [0, 1] None (FoldCount 2) None 1337 False
     (Some ''invalid'') = ([], Inl AssertPrintImp)"
proof -
  have h: "Some ''invalid'' \<notin> {Some ''every'', Some ''final'', None}" by simp
  show ?thesis by (rule invalid_print_imp_fails_first[OF h])
qed

subsection \<open>A fold source without folds\<close>

lemma check_x_test_Inr_events:
  assumes "snd (check_x_test cols ce skip_checks x_tr x_test) = Inr x_te"
  shows "check_x_test cols ce skip_checks x_tr x_test = ([], Inr x_te)"
proof (cases x_test)
  case None
  with assms show ?thesis by (simp add: check_x_test_def)
next
  case (Some xt)
  show ?thesis
  proof (cases "if ce \<and> \<not> skip_checks then getitem_columns xt cols else Inr xt")
    case (Inl e)
    with assms Some show ?thesis by (simp add: check_x_test_def)
  next
    case (Inr xt')
    show ?thesis
    proof (cases "\<not> skip_checks \<and> snd (shape x_tr) \<noteq> snd (shape (asarray xt'))")
      case True
      with assms Some Inr show ?thesis by (simp add: check_x_test_def)
    next
      case False
      with assms Some Inr show ?thesis by (simp add: check_x_test_def)
    qed
  qed
qed

text \<open>
  C7, as the spec states it, fails: the code has no check of the number of folds. Given an
  empty sequence of folds, the run is not turned away. It prints the line of line 98, runs
  the loop over nothing, prints the 'Finished' line and the empty overall importances, and
  only then ends, in the \<open>UnboundLocalError\<close> of the \<open>del\<close> of line 172.
\<close>

theorem zero_folds_not_rejected_counterexample:
  "train_kfold demo_backend [] (NDArray 1 [[1], [2]]) [0, 1] None (FoldSplits []) None 1337
     False (Some ''final'')
   = ([PrintTraining (FoldSplits []) False (2, 1) None, PrintFinished (FoldSplits []),
       PrintOverallImportances []],
      Inl UnboundLocalError)"
  by (simp add: run_simps)

text \<open>
  C7, amended. When the fold source yields no pair, \<open>print_imp\<close> is recognized and the test
  set, if there is one, passes lines 81 to 96, the call trains no model, prints the lines
  of lines 98 and 164 (and the empty overall importances unless \<open>print_imp\<close> is \<open>None\<close>), and
  then fails with the \<open>UnboundLocalError\<close> of line 172, where \<open>del\<close> meets the locals
  \<open>d_train\<close> and \<open>d_valid\<close> that only the loop body assigns. It returns no result.
\<close>

theorem zero_folds_fail_at_cleanup:
  assumes "make_splits B folds stratify random_state (asarray x_train) = Inr []"
    and "print_imp \<in> {Some ''every'', Some ''final'', None}"
    and "snd (check_x_test (columns_of x_train) (columns_exists x_train) skip_checks
               (asarray x_train) x_test) = Inr x_te"
  shows "train_kfold B params x_train y_train x_test folds stratify random_state skip_checks
           print_imp
         = ([PrintTraining folds (stratify \<noteq> None) (shape (asarray x_train))
               (map_option shape x_te),
             PrintFinished folds] @
            (if print_imp \<in> {Some ''every'', Some ''final''}
             then [PrintOverallImportances []] else []),
            Inl UnboundLocalError)"
proof -
  from assms(2) have r: "recognized print_imp" by (simp add: recognized_def)
  have c: "check_x_test (columns_of x_train) (columns_exists x_train) skip_checks
             (asarray x_train) x_test = ([], Inr x_te)"
    using assms(3) by (rule check_x_test_Inr_events)
  have f: "finish B folds (map_option (\<lambda>x. DMatrix x None) x_te) print_imp
             (init_locals y_train)
           = ([PrintFinished folds] @
              (if print_imp \<in> {Some ''every'', Some ''final''}
               then [PrintOverallImportances []] else []),
              Inl UnboundLocalError)"
    by (cases x_te)
       (simp_all add: finish_def init_locals_def mean_axis0_def sorted_by_value_def Let_def)
  show ?thesis
    by (simp add: train_kfold_def r c assms(1) f Let_def)
qed

theorem zero_folds_fail_at_cleanup_witness:
  "train_kfold demo_backend [] (NDArray 1 [[1], [2]]) [0, 1] (Some (NDArray 1 [[5]]))
     (FoldSplits []) None 1337 False None
   = ([PrintTraining (FoldSplits []) False (2, 1) (Some (1, 1)), PrintFinished (FoldSplits [])],
      Inl UnboundLocalError)"
proof -
  have m: "make_splits demo_backend (FoldSplits []) None 1337 (asarray (NDArray 1 [[1], [2]]))
             = Inr []"
    by (simp add: make_splits_def)
  have p: "None \<in> {Some ''every'', Some ''final'', (None :: string option)}" by simp
  have c: "snd (check_x_test (columns_of (NDArray 1 [[1], [2]]))
                  (columns_exists (NDArray 1 [[1], [2]])) False (asarray (NDArray 1 [[1], [2]]))
                  (Some (NDArray 1 [[5]]))) = Inr (Some (NDArray 1 [[5]]))"
    by (simp add: check_x_test_def)
  from zero_folds_fail_at_cleanup[OF m p c, of "[]" "[0, 1]"] show ?thesis by simp
qed

subsection \<open>The seed of the unstratified split\<close>

text \<open>
  C10. With an integer fold count and no stratification array the splits come from
  \<open>KFold\<close> seeded with the constant 4242: they, and the whole run, are the same for any
  two values of \<open>random_state\<close>.
\<close>

theorem random_state_ignored_unstratified:
  "make_splits B (FoldCount k) None rs1 x = make_splits B (FoldCount k) None rs2 x \<and>
   make_splits B (FoldCount k) None rs1 x =
     (case KFold_split B k 4242 x of None \<Rightarrow> Inl SplitterError | Some splits \<Rightarrow> Inr splits) \<and>
   train_kfold B params x_train y_train x_test (FoldCount k) None rs1 skip_checks print_imp =
   train_kfold B params x_train y_train x_test (FoldCount k) None rs2 skip_checks print_imp"
  by (simp add: make_splits_def train_kfold_def)

theorem random_state_ignored_unstratified_witness:
  "KFold_split demo_backend 2 1 (NDArray 1 [[1], [2]]) \<noteq>
     KFold_split demo_backend 2 2 (NDArray 1 [[1], [2]]) \<and>
   make_splits demo_backend (FoldCount 2) None 1 (NDArray 1 [[1], [2]]) =
     Inr [([0], [1]), ([1], [0])] \<and>
   make_splits demo_backend (FoldCount 2) None 2 (NDArray 1 [[1], [2]]) =
     Inr [([0], [1]), ([1], [0])]"
  using random_state_ignored_unstratified[of demo_backend 2 1 "NDArray 1 [[1], [2]]" 2]
  by (simp add: demo_backend_def demo_kfold_def make_splits_def)

subsection \<open>The check of the feature count\<close>

text \<open>
  C4, as the spec states it, fails: a training frame with the column \<open>a\<close> and a test frame
  with the columns \<open>a\<close> and \<open>b\<close> differ in their feature counts, checks are on, and the
  run returns a result. Line 84 has cut the test frame down to the training columns before
  line 94 compares the counts.
\<close>

theorem feature_count_mismatch_counterexample:
  "snd (shape (DataFrame [''a'', ''b''] [[5, 7]])) \<noteq> snd (shape (DataFrame [''a''] [[1], [2]])) \<and>
   snd (train_kfold demo_backend [] (DataFrame [''a''] [[1], [2]]) [0, 1]
          (Some (DataFrame [''a'', ''b''] [[5, 7]])) (FoldSplits [([0], [1]), ([1], [0])])
          None 1337 False (Some ''final''))
     = Inr ([0, 1], [2, 2], Some (Vector [11 / 2]), [(''a'', 4)], [0, 1])"
  by (simp add: run_simps)

text \<open>
  C4, amended. With a recognized \<open>print_imp\<close>, a test set and checks on, the feature count
  that line 94 compares is that of the test set after line 84 has selected the training
  columns from it (a step taken only when the training set is a frame with column labels;
  a plain training array leaves the test set as it is). If that count differs from the
  training set's, the call fails with the assertion of line 94 (the spec's \<open>ShapeMismatch\<close>)
  and an empty list of events: before any fold is trained. With \<open>skip_checks\<close> the call
  never fails with that assertion, nor with the re-raised exception of line 87.
\<close>

theorem feature_count_checked_after_coercion:
  "(recognized print_imp \<and>
    (if columns_exists x_train then getitem_columns xt (columns_of x_train) else Inr xt) = Inr xt' \<and>
    snd (shape xt') \<noteq> snd (shape x_train) \<longrightarrow>
      train_kfold (B :: 'm backend) params x_train y_train (Some xt) folds stratify random_state
        False print_imp = ([], Inl AssertFeatureCount)) \<and>
   snd (train_kfold B params x_train y_train x_test folds stratify random_state True print_imp)
     \<notin> {Inl AssertFeatureCount, Inl CoerceColumns}"
proof (intro conjI impI)
  assume a: "recognized print_imp \<and>
    (if columns_exists x_train then getitem_columns xt (columns_of x_train) else Inr xt) = Inr xt' \<and>
    snd (shape xt') \<noteq> snd (shape x_train)"
  then have "check_x_test (columns_of x_train) (columns_exists x_train) False (asarray x_train)
               (Some xt) = ([], Inl AssertFeatureCount)"
    by (auto simp: check_x_test_def shape_asarray)
  with a show "train_kfold B params x_train y_train (Some xt) folds stratify random_state False
                 print_imp = ([], Inl AssertFeatureCount)"
    by (simp add: train_kfold_def)
next
  have c: "\<exists>x_te. check_x_test cols ce True x_tr x_test = ([], Inr x_te)" for cols ce x_tr
    by (simp add: check_x_test_def split: option.splits)
  have b: "snd (fold_body B params x y d_test cols pm st sp)
             \<notin> {Inl AssertFeatureCount, Inl CoerceColumns}" for x y d_test cols pm st sp
  proof -
    have d: "fold_data x y sp \<notin> {Inl AssertFeatureCount, Inl CoerceColumns}"
      by (cases x) (auto simp: fold_data_def take_idx_def split: sum.splits if_splits)
    have p: "fold_predict B mdl dva d_test idx p ps \<notin> {Inl AssertFeatureCount, Inl CoerceColumns}"
      for mdl dva idx p ps
      by (auto simp: fold_predict_def setitem_def split: sum.splits option.splits if_splits)
    have g: "get_importances B mdl cols \<notin> {Inl AssertFeatureCount, Inl CoerceColumns}" for mdl
      by (simp add: get_importances_def)
    from d p g show ?thesis
      by (auto simp: fold_body_def Let_def split: sum.splits option.splits prod.splits)
  qed
  have l: "snd (fold_loop B params x y d_test cols pm st splits)
             \<notin> {Inl AssertFeatureCount, Inl CoerceColumns}" for x y d_test cols pm st splits
  proof (induction splits arbitrary: st)
    case Nil
    show ?case by simp
  next
    case (Cons sp splits)
    from b[of x y d_test cols pm st sp] Cons show ?case
      unfolding snd_fold_loop_Cons by (auto split: sum.splits)
  qed
  have f: "snd (finish B folds d_test pm st) \<notin> {Inl AssertFeatureCount, Inl CoerceColumns}"
    for d_test pm and st :: "'m locals"
    by (auto simp: finish_def mean_axis0_def Let_def split: option.splits sum.splits list.splits if_splits)
  have m: "make_splits B folds stratify random_state x \<notin> {Inl AssertFeatureCount, Inl CoerceColumns}"
    for x
    by (auto simp: make_splits_def split: folds_arg.splits option.splits)
  from c[of "columns_of x_train" "columns_exists x_train" "asarray x_train"] obtain x_te
    where "check_x_test (columns_of x_train) (columns_exists x_train) True (asarray x_train) x_test
             = ([], Inr x_te)" by blast
  with l f m show "snd (train_kfold B params x_train y_train x_test folds stratify random_state True
                  print_imp) \<notin> {Inl AssertFeatureCount, Inl CoerceColumns}"
    unfolding snd_train_kfold by (auto split: sum.splits)
qed

theorem feature_count_checked_after_coercion_witness:
  "train_kfold demo_backend [] (NDArray 1 [[1], [2]]) [0, 1] (Some (NDArray 2 [[5, 7]]))
     (FoldSplits [([0], [1]), ([1], [0])]) None 1337 False (Some ''final'')
     = ([], Inl AssertFeatureCount) \<and>
   snd (train_kfold demo_backend [] (NDArray 1 [[1], [2]]) [0, 1] (Some (NDArray 2 [[5, 7]]))
     (FoldSplits [([0], [1]), ([1], [0])]) None 1337 True (Some ''final''))
     \<notin> {Inl AssertFeatureCount, Inl CoerceColumns}"
  using feature_count_checked_after_coercion[of "Some ''final''" "NDArray 1 [[1], [2]]"
      "NDArray 2 [[5, 7]]" "NDArray 2 [[5, 7]]" demo_backend "[]" "[0, 1]"
      "FoldSplits [([0], [1]), ([1], [0])]" None 1337 "Some (NDArray 2 [[5, 7]])"]
  by (simp add: recognized_def)

subsection \<open>The importance reporting mode\<close>

lemma snd_fold_body_print_imp:
  "snd (fold_body B params x y d_test cols p1 st sp) =
   snd (fold_body B params x y d_test cols p2 st sp)"
  by (simp add: fold_body_def Let_def split: sum.splits option.splits prod.splits)

lemma snd_fold_loop_print_imp:
  "snd (fold_loop B params x y d_test cols p1 st splits) =
   snd (fold_loop B params x y d_test cols p2 st splits)"
proof (induction splits arbitrary: st)
  case Nil
  show ?case by simp
next
  case (Cons sp splits)
  show ?case
    unfolding snd_fold_loop_Cons snd_fold_body_print_imp[of B params x y d_test cols p1 st sp p2]
    by (simp add: Cons.IH split: sum.splits)
qed

lemma snd_finish:
  "snd (finish B folds d_test pm st) =
     (case (case d_test of
              None \<Rightarrow> Inr None
            | Some dte \<Rightarrow>
                (case mean_axis0 B (ps_test st) of Inl e \<Rightarrow> Inl e | Inr m \<Rightarrow> Inr (Some m))) of
        Inl e \<Rightarrow> Inl e
      | Inr p_test \<Rightarrow>
          if d_train st = None \<or> d_valid st = None then Inl UnboundLocalError
          else Inr (models st, p_train st, p_test, imps st, scores st))"
  by (cases d_test; cases "mean_axis0 B (ps_test st)") (simp_all add: finish_def Let_def)

lemma snd_finish_print_imp:
  "snd (finish B folds d_test p1 st) = snd (finish B folds d_test p2 st)"
  by (simp only: snd_finish)

text \<open>
  C8. Two calls that differ only in \<open>print_imp\<close>, both among \<open>'every'\<close>, \<open>'final'\<close> and
  \<open>None\<close>, have the same outcome: the same returned tuple (models, out-of-fold
  predictions, test predictions, importance totals, scores), or the same exception. Only
  the printed events differ.
\<close>

theorem print_imp_only_observability:
  assumes "p1 \<in> {Some ''every'', Some ''final'', None}"
    and "p2 \<in> {Some ''every'', Some ''final'', None}"
  shows "snd (train_kfold B params x_train y_train x_test folds stratify random_state
                skip_checks p1) =
         snd (train_kfold B params x_train y_train x_test folds stratify random_state
                skip_checks p2)"
proof -
  from assms have r: "recognized p1" "recognized p2" by (simp_all add: recognized_def)
  show ?thesis
    unfolding snd_train_kfold
    using r
    by (simp add: snd_fold_loop_print_imp[of B params _ y_train _ _ p1 _ _ p2]
        snd_finish_print_imp[of B folds _ p1 _ p2] split: sum.splits)
qed

theorem print_imp_only_observability_witness:
  "snd (train_kfold demo_backend [] (NDArray 1 [[1], [2]]) [0, 1] (Some (NDArray 1 [[5]]))
          (FoldCount 2) None 1337 False (Some ''every'')) =
   snd (train_kfold demo_backend [] (NDArray 1 [[1], [2]]) [0, 1] (Some (NDArray 1 [[5]]))
          (FoldCount 2) None 1337 False None) \<and>
   fst (train_kfold demo_backend [] (NDArray 1 [[1], [2]]) [0, 1] (Some (NDArray 1 [[5]]))
          (FoldCount 2) None 1337 False (Some ''every'')) \<noteq>
   fst (train_kfold demo_backend [] (NDArray 1 [[1], [2]]) [0, 1] (Some (NDArray 1 [[5]]))
          (FoldCount 2) None 1337 False None) \<and>
   snd (train_kfold demo_backend [] (NDArray 1 [[1], [2]]) [0, 1] (Some (NDArray 1 [[5]]))
          (FoldCount 2) None 1337 False None) =
     Inr ([0, 1], [2, 2], Some (Vector [11 / 2]), [(''0'', 4)], [0, 1])"
proof -
  have h1: "Some ''every'' \<in> {Some ''every'', Some ''final'', None}" by simp
  have h2: "None \<in> {Some ''every'', Some ''final'', (None :: string option)}" by simp
  have e: "snd (train_kfold demo_backend [] (NDArray 1 [[1], [2]]) [0, 1] (Some (NDArray 1 [[5]]))
          (FoldCount 2) None 1337 False None) =
     Inr ([0, 1], [2, 2], Some (Vector [11 / 2]), [(''0'', 4)], [0, 1])"
    by (simp add: run_simps)
  have f: "fst (train_kfold demo_backend [] (NDArray 1 [[1], [2]]) [0, 1] (Some (NDArray 1 [[5]]))
          (FoldCount 2) None 1337 False (Some ''every'')) \<noteq>
   fst (train_kfold demo_backend [] (NDArray 1 [[1], [2]]) [0, 1] (Some (NDArray 1 [[5]]))
          (FoldCount 2) None 1337 False None)"
    by (simp add: run_simps)
  from print_imp_only_observability[OF h1 h2, where B = demo_backend and params = "[]"
      and x_train = "NDArray 1 [[1], [2]]" and y_train = "[0, 1]"
      and x_test = "Some (NDArray 1 [[5]])" and folds = "FoldCount 2" and stratify = None
      and random_state = 1337 and skip_checks = False] e f
  show ?thesis by simp
qed

subsection \<open>Folds supplied by the caller\<close>

lemma fields_splitters:
  "xgb_train (B\<lparr>KFold_split := g, StratifiedKFold_split := h\<rparr>) = xgb_train B"
  "best_score (B\<lparr>KFold_split := g, StratifiedKFold_split := h\<rparr>) = best_score B"
  "get_fscore (B\<lparr>KFold_split := g, StratifiedKFold_split := h\<rparr>) = get_fscore B"
  "predict (B\<lparr>KFold_split := g, StratifiedKFold_split := h\<rparr>) = predict B"
  "mean_float64 (B\<lparr>KFold_split := g, StratifiedKFold_split := h\<rparr>) = mean_float64 B"
  "mean_float32 (B\<lparr>KFold_split := g, StratifiedKFold_split := h\<rparr>) = mean_float32 B"
  by simp_all

lemma splitters_unused:
  "call_xgb_train (B\<lparr>KFold_split := g, StratifiedKFold_split := h\<rparr>) = call_xgb_train B"
  "get_importances (B\<lparr>KFold_split := g, StratifiedKFold_split := h\<rparr>) = get_importances B"
  "fold_predict (B\<lparr>KFold_split := g, StratifiedKFold_split := h\<rparr>) = fold_predict B"
  "mean_axis0 (B\<lparr>KFold_split := g, StratifiedKFold_split := h\<rparr>) = mean_axis0 B"
  unfolding fun_eq_iff call_xgb_train_def get_importances_def fold_predict_def mean_axis0_def
    fields_splitters
  by simp_all

lemma finish_splitters:
  "finish (B\<lparr>KFold_split := g, StratifiedKFold_split := h\<rparr>) folds d_test pm st =
   finish B folds d_test pm st"
  by (simp only: finish_def splitters_unused)

lemma fold_body_splitters:
  "fold_body (B\<lparr>KFold_split := g, StratifiedKFold_split := h\<rparr>) params x y d_test cols pm st sp =
   fold_body B params x y d_test cols pm st sp"
  by (simp only: fold_body_def splitters_unused fields_splitters)

lemma fold_loop_splitters:
  "fold_loop (B\<lparr>KFold_split := g, StratifiedKFold_split := h\<rparr>) params x y d_test cols pm st splits =
   fold_loop B params x y d_test cols pm st splits"
  by (induction splits arbitrary: st) (simp_all add: fold_body_splitters)

text \<open>
  C6. When \<open>folds\<close> is a sequence of (train indices, validation indices) pairs, the loop
  runs over exactly that sequence; the k-fold generators of the backend are never asked,
  so exchanging them for any others changes nothing of the run; and a run that returns
  has trained one model and recorded one score for each pair.
\<close>

theorem supplied_folds_used_verbatim:
  "make_splits B (FoldSplits splits) stratify random_state x = Inr splits \<and>
   train_kfold (B\<lparr>KFold_split := g, StratifiedKFold_split := h\<rparr>) params x_train y_train x_test
     (FoldSplits splits) stratify random_state skip_checks print_imp =
   train_kfold B params x_train y_train x_test (FoldSplits splits) stratify random_state
     skip_checks print_imp \<and>
   (snd (train_kfold B params x_train y_train x_test (FoldSplits splits) stratify random_state
           skip_checks print_imp) = Inr (ms, p_tr, p_te, im, sc) \<longrightarrow>
      length ms = length splits \<and> length sc = length splits)"
proof (intro conjI impI)
  show "make_splits B (FoldSplits splits) stratify random_state x = Inr splits"
    by (simp add: make_splits_def)
  show "train_kfold (B\<lparr>KFold_split := g, StratifiedKFold_split := h\<rparr>) params x_train y_train
          x_test (FoldSplits splits) stratify random_state skip_checks print_imp =
        train_kfold B params x_train y_train x_test (FoldSplits splits) stratify random_state
          skip_checks print_imp"
    by (simp add: train_kfold_def make_splits_def fold_loop_splitters finish_splitters)
next
  assume a: "snd (train_kfold B params x_train y_train x_test (FoldSplits splits) stratify
                random_state skip_checks print_imp) = Inr (ms, p_tr, p_te, im, sc)"
  from a obtain x_te splits' st where
    m: "make_splits B (FoldSplits splits) stratify random_state (asarray x_train) = Inr splits'"
    and l: "snd (fold_loop B params (asarray x_train) y_train
               (map_option (\<lambda>x. DMatrix x None) x_te) (columns_of x_train) print_imp
               (init_locals y_train) splits') = Inr st"
    and f: "snd (finish B (FoldSplits splits) (map_option (\<lambda>x. DMatrix x None) x_te) print_imp st)
              = Inr (ms, p_tr, p_te, im, sc)"
    by (rule train_kfold_Inr)
  from m have s: "splits' = splits" by (simp add: make_splits_def)
  from fold_loop_models[OF l] obtain ms' where
    "length ms' = length splits'" "models st = ms'" "scores st = map (best_score B) ms'"
    by (auto simp: init_locals_def)
  moreover from finish_Inr[OF f] have "ms = models st" "sc = scores st" by auto
  ultimately show "length ms = length splits" "length sc = length splits" using s by simp_all
qed

theorem supplied_folds_used_verbatim_witness:
  "snd (train_kfold demo_backend [] (NDArray 1 [[1], [2], [3]]) [0, 1, 1] None
          (FoldSplits [([0, 1], [2]), ([1, 2], [0]), ([0, 2], [1])]) None 1337 False None)
     = Inr ([1, 2, 1], [3, 3, 4], None, [(''0'', 6)], [1, 2, 1]) \<and>
   length [1, 2, 1 :: real] = length [([0, 1], [2]), ([1, 2], [0]), ([0, 2], [1 :: int])]"
proof -
  have e: "snd (train_kfold demo_backend [] (NDArray 1 [[1], [2], [3]]) [0, 1, 1] None
          (FoldSplits [([0, 1], [2]), ([1, 2], [0]), ([0, 2], [1])]) None 1337 False None)
     = Inr ([1, 2, 1], [3, 3, 4], None, [(''0'', 6)], [1, 2, 1])"
    by (simp add: run_simps)
  from supplied_folds_used_verbatim[where B = demo_backend
      and splits = "[([0, 1], [2]), ([1, 2], [0]), ([0, 2], [1])]"
      and params = "[]" and x_train = "NDArray 1 [[1], [2], [3]]" and y_train = "[0, 1, 1]"
      and x_test = None and stratify = None and random_state = 1337 and skip_checks = False
      and print_imp = None and ms = "[1, 2, 1]" and p_tr = "[3, 3, 4]" and p_te = None
      and im = "[(''0'', 6)]" and sc = "[1, 2, 1]"] e
  show ?thesis by simp
qed

subsection \<open>The out-of-fold vector\<close>

text \<open>
  C9. The returned out-of-fold vector is as long as the label vector, and holds 0 at every
  position that no fold's validation indices (negative ones counted from the end) name.
\<close>

theorem oof_length_and_untouched_zero:
  assumes "snd (train_kfold B params x_train y_train x_test folds stratify random_state
                  skip_checks print_imp) = Inr (ms, p_tr, p_te, im, sc)"
    and "make_splits B folds stratify random_state (asarray x_train) = Inr splits"
  shows "length p_tr = length y_train \<and>
         (\<forall>i. (\<forall>sp\<in>set splits. Some i \<notin> norm_index (length y_train) ` set (snd sp)) \<longrightarrow>
              i < length y_train \<longrightarrow> p_tr ! i = 0)"
proof -
  from assms(1) obtain x_te splits' st where
    m: "make_splits B folds stratify random_state (asarray x_train) = Inr splits'"
    and l: "snd (fold_loop B params (asarray x_train) y_train
               (map_option (\<lambda>x. DMatrix x None) x_te) (columns_of x_train) print_imp
               (init_locals y_train) splits') = Inr st"
    and f: "snd (finish B folds (map_option (\<lambda>x. DMatrix x None) x_te) print_imp st)
              = Inr (ms, p_tr, p_te, im, sc)"
    by (rule train_kfold_Inr)
  from m assms(2) have s: "splits' = splits" by simp
  from finish_Inr[OF f] have p: "p_tr = p_train st" by auto
  have i0: "p_train (init_locals y_train :: 'a locals) = replicate (length y_train) 0"
    by (simp add: init_locals_def)
  show ?thesis
  proof (intro conjI allI impI)
    from fold_loop_p_train[OF l] p i0 show "length p_tr = length y_train" by simp
  next
    fix i
    assume un: "\<forall>sp\<in>set splits. Some i \<notin> norm_index (length y_train) ` set (snd sp)"
      and i: "i < length y_train"
    from fold_loop_p_train[OF l, of i] un s i0
    have "p_train st ! i = replicate (length y_train) 0 ! i" by simp
    with p i show "p_tr ! i = 0" by simp
  qed
qed

theorem oof_length_and_untouched_zero_witness:
  "snd (train_kfold demo_backend [] (NDArray 1 [[1], [2]]) [0, 1] None
          (FoldSplits [([0], [-1])]) None 1337 False None)
     = Inr ([0], [0, 2], None, [(''0'', 2)], [0]) \<and>
   length [0, 2 :: real] = length [0, 1 :: real] \<and> [0, 2 :: real] ! 0 = 0"
proof -
  have e: "snd (train_kfold demo_backend [] (NDArray 1 [[1], [2]]) [0, 1] None
          (FoldSplits [([0], [-1])]) None 1337 False None)
     = Inr ([0], [0, 2], None, [(''0'', 2)], [0])"
    by (simp add: run_simps)
  have m: "make_splits demo_backend (FoldSplits [([0], [-1])]) None 1337
             (asarray (NDArray 1 [[1], [2]])) = Inr [([0], [-1])]"
    by (simp add: make_splits_def)
  from oof_length_and_untouched_zero[OF e m] e show ?thesis
    by (simp add: norm_index_def)
qed

subsection \<open>Overlapping validation sets\<close>

lemma snd_fold_loop_append:
  "snd (fold_loop B params x y d_test cols pm st (xs @ ys)) =
     (case snd (fold_loop B params x y d_test cols pm st xs) of
        Inl e \<Rightarrow> Inl e
      | Inr st' \<Rightarrow> snd (fold_loop B params x y d_test cols pm st' ys))"
proof (induction xs arbitrary: st)
  case Nil
  show ?case by simp
next
  case (Cons sp xs)
  show ?case
    unfolding append_Cons snd_fold_loop_Cons
    by (simp add: Cons.IH split: sum.splits)
qed

lemma put_last:
  assumes "\<forall>jv\<in>set ivs. norm_index n (fst jv) \<noteq> None"
    and "j < length ivs" and "norm_index n (fst (ivs ! j)) = Some i"
    and "\<forall>j'. j < j' \<and> j' < length ivs \<longrightarrow> norm_index n (fst (ivs ! j')) \<noteq> Some i"
    and "i < length a"
  shows "put n a ivs ! i = snd (ivs ! j)"
  using assms
proof (induction ivs arbitrary: a j)
  case Nil
  then show ?case by simp
next
  case (Cons jv ivs)
  obtain idx v where jv: "jv = (idx, v)" by (cases jv)
  from Cons.prems(1) jv obtain k where k: "norm_index n idx = Some k" by auto
  show ?case
  proof (cases j)
    case 0
    with Cons.prems(3) jv k have ki: "k = i" by simp
    have "\<forall>jv\<in>set ivs. norm_index n (fst jv) \<noteq> None \<and> norm_index n (fst jv) \<noteq> Some i"
    proof
      fix jv' assume "jv' \<in> set ivs"
      then obtain j' where j': "j' < length ivs" "jv' = ivs ! j'"
        by (auto simp: in_set_conv_nth)
      with Cons.prems(4)[rule_format, of "Suc j'"] 0
      have "norm_index n (fst ((jv # ivs) ! Suc j')) \<noteq> Some i" by simp
      with j' Cons.prems(1) \<open>jv' \<in> set ivs\<close>
      show "norm_index n (fst jv') \<noteq> None \<and> norm_index n (fst jv') \<noteq> Some i" by simp
    qed
    then have "put n (a[k := v]) ivs ! i = (a[k := v]) ! i" by (rule put_untouched)
    with ki Cons.prems(5) 0 jv k show ?thesis by simp
  next
    case (Suc j0)
    have "put n (a[k := v]) ivs ! i = snd (ivs ! j0)"
    proof (rule Cons.IH)
      show "\<forall>jv\<in>set ivs. norm_index n (fst jv) \<noteq> None" using Cons.prems(1) by simp
      show "j0 < length ivs" using Cons.prems(2) Suc by simp
      show "norm_index n (fst (ivs ! j0)) = Some i" using Cons.prems(3) Suc by simp
      show "\<forall>j'. j0 < j' \<and> j' < length ivs \<longrightarrow> norm_index n (fst (ivs ! j')) \<noteq> Some i"
      proof (intro allI impI)
        fix j' assume "j0 < j' \<and> j' < length ivs"
        with Cons.prems(4)[rule_format, of "Suc j'"] Suc
        have "norm_index n (fst ((jv # ivs) ! Suc j')) \<noteq> Some i"
          by simp
        then show "norm_index n (fst (ivs ! j')) \<noteq> Some i" by simp
      qed
      show "i < length (a[k := v])" using Cons.prems(5) by simp
    qed
    with Suc jv k show ?thesis by simp
  qed
qed

lemma setitem_last:
  assumes "setitem a idx vals = Inr a'"
    and "j < length idx" and "norm_index (length a) (idx ! j) = Some i"
    and "\<forall>j'. j < j' \<and> j' < length idx \<longrightarrow> norm_index (length a) (idx ! j') \<noteq> Some i"
  shows "a' ! i = vals ! (if length vals = length idx then j else 0)"
proof -
  from assms(3) have i: "i < length a" by (rule norm_index_less)
  from assms(1) have ok: "\<forall>j\<in>set idx. norm_index (length a) j \<noteq> None"
    by (auto simp: setitem_def index_ok_iff split: if_splits)
  show ?thesis
  proof (cases "length vals = length idx")
    case True
    with assms(1) have a': "a' = put (length a) a (zip idx vals)"
      by (auto simp: setitem_def split: if_splits)
    have "put (length a) a (zip idx vals) ! i = snd (zip idx vals ! j)"
    proof (rule put_last)
      show "\<forall>jv\<in>set (zip idx vals). norm_index (length a) (fst jv) \<noteq> None"
        using ok by (auto dest: set_zip_leftD)
      show "j < length (zip idx vals)" using assms(2) True by simp
      show "norm_index (length a) (fst (zip idx vals ! j)) = Some i"
        using assms(2,3) True by simp
      show "\<forall>j'. j < j' \<and> j' < length (zip idx vals) \<longrightarrow>
              norm_index (length a) (fst (zip idx vals ! j')) \<noteq> Some i"
        using assms(4) True by simp
      show "i < length a" by (rule i)
    qed
    with a' True assms(2) show ?thesis by simp
  next
    case False
    with assms(1) have a': "a' = put (length a) a (map (\<lambda>i. (i, hd vals)) idx)"
      and one: "length vals = 1"
      by (auto simp: setitem_def split: if_splits)
    have "put (length a) a (map (\<lambda>i. (i, hd vals)) idx) ! i
            = snd (map (\<lambda>i. (i, hd vals)) idx ! j)"
    proof (rule put_last)
      show "\<forall>jv\<in>set (map (\<lambda>i. (i, hd vals)) idx). norm_index (length a) (fst jv) \<noteq> None"
        using ok by auto
      show "j < length (map (\<lambda>i. (i, hd vals)) idx)" using assms(2) by simp
      show "norm_index (length a) (fst (map (\<lambda>i. (i, hd vals)) idx ! j)) = Some i"
        using assms(2,3) by simp
      show "\<forall>j'. j < j' \<and> j' < length (map (\<lambda>i. (i, hd vals)) idx) \<longrightarrow>
              norm_index (length a) (fst (map (\<lambda>i. (i, hd vals)) idx ! j')) \<noteq> Some i"
        using assms(4) by simp
      show "i < length a" by (rule i)
    qed
    moreover from one have "hd vals = vals ! 0" by (cases vals) simp_all
    ultimately show ?thesis using a' False assms(2) by simp
  qed
qed

text \<open>
  C5. Let fold \<open>k\<close> be the last fold whose validation indices name position \<open>i\<close>, and \<open>j\<close>
  the last place in that fold's validation indices where \<open>i\<close> is named. Then the returned
  out-of-fold vector holds at \<open>i\<close> the prediction that the model of fold \<open>k\<close> made for the
  validation row \<open>j\<close> of that fold (the single prediction, if the model answered with one
  number for several rows). What earlier folds wrote at \<open>i\<close> is lost.
\<close>

theorem oof_last_write_wins:
  assumes run: "snd (train_kfold B params x_train y_train x_test folds stratify random_state
                  skip_checks print_imp) = Inr (ms, p_tr, p_te, im, sc)"
    and sp: "make_splits B folds stratify random_state (asarray x_train) = Inr splits"
    and k: "k < length splits"
    and j: "j < length (snd (splits ! k))"
    and hit: "norm_index (length y_train) (snd (splits ! k) ! j) = Some i"
    and last_place: "\<forall>j'. j < j' \<and> j' < length (snd (splits ! k)) \<longrightarrow>
                  norm_index (length y_train) (snd (splits ! k) ! j') \<noteq> Some i"
    and later: "\<forall>k'. k < k' \<and> k' < length splits \<longrightarrow>
                  Some i \<notin> norm_index (length y_train) ` set (snd (splits ! k'))"
  shows "\<exists>dtr dva p_valid. fold_data (asarray x_train) y_train (splits ! k) = Inr (dtr, dva) \<and>
           predict B (ms ! k) dva = Some p_valid \<and>
           p_tr ! i = p_valid ! (if length p_valid = length (snd (splits ! k)) then j else 0)"
proof -
  from run obtain x_te splits' st where
    m: "make_splits B folds stratify random_state (asarray x_train) = Inr splits'"
    and l: "snd (fold_loop B params (asarray x_train) y_train
               (map_option (\<lambda>x. DMatrix x None) x_te) (columns_of x_train) print_imp
               (init_locals y_train) splits') = Inr st"
    and f: "snd (finish B folds (map_option (\<lambda>x. DMatrix x None) x_te) print_imp st)
              = Inr (ms, p_tr, p_te, im, sc)"
    by (rule train_kfold_Inr)
  from m sp have s: "splits' = splits" by simp
  from finish_Inr[OF f] have fin: "p_tr = p_train st" "ms = models st" by auto
  define d_test where "d_test = map_option (\<lambda>x. DMatrix x None) x_te"
  define cols where "cols = columns_of x_train"
  define xa where "xa = asarray x_train"
  have dec: "splits = take k splits @ splits ! k # drop (Suc k) splits"
    using k by (rule id_take_nth_drop)
  from l have l': "snd (fold_loop B params xa y_train d_test cols print_imp
                     (init_locals y_train) (take k splits @ splits ! k # drop (Suc k) splits))
                   = Inr st"
    unfolding s d_test_def cols_def xa_def using dec by simp
  from l' obtain st_a where
    a: "snd (fold_loop B params xa y_train d_test cols print_imp (init_locals y_train)
              (take k splits)) = Inr st_a"
    and bc: "snd (fold_loop B params xa y_train d_test cols print_imp st_a
              (splits ! k # drop (Suc k) splits)) = Inr st"
    unfolding snd_fold_loop_append[of _ _ _ _ _ _ _ _ "take k splits"]
    by (auto split: sum.splits)
  from bc obtain st_b where
    b: "snd (fold_body B params xa y_train d_test cols print_imp st_a (splits ! k)) = Inr st_b"
    and c: "snd (fold_loop B params xa y_train d_test cols print_imp st_b
              (drop (Suc k) splits)) = Inr st"
    by (rule fold_loop_Cons_Inr)
  from b obtain dtr dva mdl p_tr' ps' where
    fd: "fold_data xa y_train (splits ! k) = Inr (dtr, dva)"
    and pr: "fold_predict B mdl dva d_test (snd (splits ! k)) (p_train st_a) (ps_test st_a)
               = Inr (p_tr', ps')"
    and st_b: "st_b = \<lparr>fold_i = fold_i st_a + 1, p_train = p_tr', ps_test = ps',
                 models = models st_a @ [mdl], scores = scores st_a @ [best_score B mdl],
                 imps = add_imps (imps st_a) (sorted_by_value (get_fscore B mdl cols)),
                 d_train = Some dtr, d_valid = Some dva\<rparr>"
    by (rule fold_body_Inr)
  from pr obtain p_valid where pv: "predict B mdl dva = Some p_valid"
    and si: "setitem (p_train st_a) (snd (splits ! k)) p_valid = Inr p_tr'"
    by (rule fold_predict_Inr)
  \<comment> \<open>the model of fold k is the k-th returned model\<close>
  from fold_loop_models[OF a] k have ma: "length (models st_a) = k"
    by (auto simp: init_locals_def)
  from fold_loop_models[OF c] obtain ms_c where "models st = models st_b @ ms_c" by blast
  with st_b ma fin(2) have mk: "ms ! k = mdl"
    by (simp add: nth_append)
  \<comment> \<open>the lengths of the out-of-fold vector\<close>
  from fold_loop_p_train[OF a] have la: "length (p_train st_a) = length y_train"
    by (simp add: init_locals_def)
  from si la have lb: "length p_tr' = length y_train" by (simp add: setitem_length)
  \<comment> \<open>later folds leave position i alone\<close>
  have "\<forall>sp\<in>set (drop (Suc k) splits). Some i \<notin> norm_index (length y_train) ` set (snd sp)"
  proof
    fix sp assume "sp \<in> set (drop (Suc k) splits)"
    then obtain k' where k': "k' < length (drop (Suc k) splits)" "sp = drop (Suc k) splits ! k'"
      by (auto simp: in_set_conv_nth)
    then have "sp = splits ! (Suc k + k')" "Suc k + k' < length splits" by auto
    with later show "Some i \<notin> norm_index (length y_train) ` set (snd sp)" by simp
  qed
  with fold_loop_p_train[OF c, of i] st_b lb have "p_train st ! i = p_tr' ! i" by simp
  \<comment> \<open>fold k writes the prediction of its row j\<close>
  moreover from setitem_last[OF si j] hit last_place la
  have "p_tr' ! i = p_valid ! (if length p_valid = length (snd (splits ! k)) then j else 0)"
    by simp
  ultimately show ?thesis using fd pv mk fin(1) unfolding xa_def by auto
qed

theorem oof_last_write_wins_witness:
  "snd (train_kfold demo_backend [] (NDArray 1 [[1], [2], [3]]) [3, 4, 5] None
          (FoldSplits [([0], [1, 2]), ([1], [0, -1])]) None 1337 False None)
     = Inr ([3, 4], [5, 5, 7], None, [(''0'', 4)], [3, 4]) \<and>
   (\<exists>dtr dva p_valid.
      fold_data (asarray (NDArray 1 [[1], [2], [3]])) [3, 4, 5]
        ([([0], [1, 2]), ([1], [0, -1])] ! 1) = Inr (dtr, dva) \<and>
      predict demo_backend ([3, 4] ! 1) dva = Some p_valid \<and>
      [5, 5, 7] ! 2 =
        p_valid ! (if length p_valid = length (snd ([([0], [1, 2]), ([1], [0, -1])] ! 1))
                   then 1 else 0)) \<and>
   predict demo_backend 4 (DMatrix (NDArray 1 [[1], [3]]) (Some [3, 5])) = Some [5, 7]"
proof -
  have e: "snd (train_kfold demo_backend [] (NDArray 1 [[1], [2], [3]]) [3, 4, 5] None
          (FoldSplits [([0], [1, 2]), ([1], [0, -1])]) None 1337 False None)
     = Inr ([3, 4], [5, 5, 7], None, [(''0'', 4)], [3, 4])"
    by (simp add: run_simps)
  have m: "make_splits demo_backend (FoldSplits [([0], [1, 2]), ([1], [0, -1])]) None 1337
             (asarray (NDArray 1 [[1], [2], [3]])) = Inr [([0], [1, 2]), ([1], [0, -1])]"
    by (simp add: make_splits_def)
  have k: "1 < length [([0], [1, 2]), ([1], [0, -1 :: int])]" by simp
  have j: "1 < length (snd ([([0], [1, 2]), ([1], [0, -1 :: int])] ! 1))" by simp
  have hit: "norm_index (length [3, 4, 5 :: real])
               (snd ([([0], [1, 2]), ([1], [0, -1])] ! 1) ! 1) = Some 2"
    by (simp add: norm_index_def)
  have last_place: "\<forall>j'. 1 < j' \<and> j' < length (snd ([([0], [1, 2]), ([1], [0, -1 :: int])] ! 1)) \<longrightarrow>
      norm_index (length [3, 4, 5 :: real]) (snd ([([0], [1, 2]), ([1], [0, -1])] ! 1) ! j')
        \<noteq> Some 2"
    by auto
  have later: "\<forall>k'. 1 < k' \<and> k' < length [([0], [1, 2]), ([1], [0, -1 :: int])] \<longrightarrow>
      Some 2 \<notin> norm_index (length [3, 4, 5 :: real]) `
                 set (snd ([([0], [1, 2]), ([1], [0, -1])] ! k'))"
    by auto
  have p: "predict demo_backend 4 (DMatrix (NDArray 1 [[1], [3]]) (Some [3, 5])) = Some [5, 7]"
    by (simp add: demo_backend_def)
  from oof_last_write_wins[OF e m k j hit last_place later] e p show ?thesis by simp
qed

subsection \<open>Test predictions\<close>





subsection \<open>Importance totals\<close>

lemma map_of_add_imp:
  "map_of (add_imp d f i) g = (if g = f then Some (get_or_0 d f + i) else map_of d g)"
  by (induction d f i rule: add_imp.induct) (auto simp: get_or_0_def)

lemma get_or_0_add_imp:
  "get_or_0 (add_imp d f i) g = (if g = f then get_or_0 d f + i else get_or_0 d g)"
  by (simp add: get_or_0_def map_of_add_imp)

lemma get_or_0_add_imps:
  "get_or_0 (add_imps d imp) g =
     get_or_0 d g + sum_list (map snd (filter (\<lambda>kv. fst kv = g) imp))"
  by (induction d imp rule: add_imps.induct) (auto simp: get_or_0_add_imp)

lemma map_of_add_imps:
  "map_of (add_imps d imp) g =
     (if g \<in> fst ` set imp then Some (get_or_0 (add_imps d imp) g) else map_of d g)"
proof (induction d imp rule: add_imps.induct)
  case (1 d)
  show ?case by simp
next
  case (2 d f i imp)
  show ?case
  proof (cases "g \<in> fst ` set imp")
    case True
    with 2 show ?thesis by simp
  next
    case False
    with 2 show ?thesis
      by (auto simp: map_of_add_imp get_or_0_def)
  qed
qed

lemma filter_sum_insort_key:
  "sum_list (map snd (filter P (insort_key k x xs))) =
     (sum_list (map snd (filter P (x # xs))) :: int)"
  by (induction xs) auto

lemma filter_sum_sorted_by_value:
  "sum_list (map snd (filter P (sorted_by_value l))) = (sum_list (map snd (filter P l)) :: int)"
  unfolding sorted_by_value_def sort_key_def
  by (induction l) (simp_all add: filter_sum_insort_key)

lemma set_sorted_by_value: "set (sorted_by_value l) = set l"
  by (simp add: sorted_by_value_def)

lemma filter_sum_absent:
  "g \<notin> fst ` set l \<Longrightarrow> sum_list (map snd (filter (\<lambda>kv. fst kv = g) l)) = (0 :: int)"
  by (induction l) auto

lemma filter_sum_distinct:
  "distinct (map fst l) \<Longrightarrow>
   sum_list (map snd (filter (\<lambda>kv. fst kv = g) l)) = get_or_0 l g"
proof (induction l)
  case Nil
  show ?case by (simp add: get_or_0_def)
next
  case (Cons kv l)
  obtain k v where kv: "kv = (k, v)" by (cases kv)
  show ?case
  proof (cases "k = g")
    case True
    with Cons.prems kv have "g \<notin> fst ` set l" by auto
    then have "sum_list (map snd (filter (\<lambda>kv. fst kv = g) l)) = 0"
      by (rule filter_sum_absent)
    with True kv show ?thesis by (simp add: get_or_0_def)
  next
    case False
    with Cons kv show ?thesis by (simp add: get_or_0_def)
  qed
qed

lemma fold_add_imps:
  fixes B :: "'m backend"
  assumes "\<forall>m. distinct (map fst (get_fscore B m cols))"
  shows "map_of (fold (\<lambda>m d. add_imps d (sorted_by_value (get_fscore B m cols))) ms d) g =
           (if \<exists>m\<in>set ms. g \<in> fst ` set (get_fscore B m cols)
            then Some (get_or_0 d g + (\<Sum>m\<leftarrow>ms. get_or_0 (get_fscore B m cols) g))
            else map_of d g)"
proof (induction ms arbitrary: d)
  case Nil
  show ?case by simp
next
  case (Cons m ms)
  define d' where "d' = add_imps d (sorted_by_value (get_fscore B m cols))"
  have g': "get_or_0 d' g = get_or_0 d g + get_or_0 (get_fscore B m cols) g"
    using assms
    by (simp add: d'_def get_or_0_add_imps filter_sum_sorted_by_value filter_sum_distinct)
  have m': "map_of d' g =
      (if g \<in> fst ` set (get_fscore B m cols) then Some (get_or_0 d' g) else map_of d g)"
    unfolding d'_def using map_of_add_imps[of d "sorted_by_value (get_fscore B m cols)" g]
    by (simp add: set_sorted_by_value)
  have z: "\<not> (\<exists>m\<in>set ms. g \<in> fst ` set (get_fscore B m cols)) \<Longrightarrow>
             (\<Sum>m\<leftarrow>ms. get_or_0 (get_fscore B m cols) g) = 0"
  proof -
    assume a: "\<not> (\<exists>m\<in>set ms. g \<in> fst ` set (get_fscore B m cols))"
    have "get_or_0 (get_fscore B m cols) g = 0" if "m \<in> set ms" for m
      using a that assms filter_sum_absent[of g "get_fscore B m cols"]
      by (simp add: filter_sum_distinct[symmetric])
    then show ?thesis by (induction ms) simp_all
  qed
  have n: "g \<notin> fst ` set (get_fscore B m cols) \<Longrightarrow> get_or_0 (get_fscore B m cols) g = 0"
    using assms filter_sum_absent[of g "get_fscore B m cols"]
    by (simp add: filter_sum_distinct[symmetric])
  have "map_of (fold (\<lambda>m d. add_imps d (sorted_by_value (get_fscore B m cols))) (m # ms) d) g =
        map_of (fold (\<lambda>m d. add_imps d (sorted_by_value (get_fscore B m cols))) ms d') g"
    by (simp add: d'_def)
  also have "\<dots> = (if \<exists>m\<in>set ms. g \<in> fst ` set (get_fscore B m cols)
            then Some (get_or_0 d' g + (\<Sum>m\<leftarrow>ms. get_or_0 (get_fscore B m cols) g))
            else map_of d' g)"
    by (rule Cons.IH)
  also have "\<dots> = (if \<exists>m\<in>set (m # ms). g \<in> fst ` set (get_fscore B m cols)
            then Some (get_or_0 d g + (\<Sum>m\<leftarrow>m # ms. get_or_0 (get_fscore B m cols) g))
            else map_of d g)"
    using g' m' z n by auto
  finally show ?case .
qed

text \<open>
  C2. A feature that occurs in the importance dictionary of at least one fold's model has,
  in the returned totals, the sum over the folds' models of its importance in that model's
  dictionary, counting 0 where the dictionary does not have it; a feature that occurs in
  none is not in the totals. \<open>get_fscore\<close> answers with the items of a dictionary, whose
  keys are distinct.
\<close>

theorem importance_totals_are_fold_sums:
  assumes run: "snd (train_kfold B params x_train y_train x_test folds stratify random_state
                  skip_checks print_imp) = Inr (ms, p_tr, p_te, im, sc)"
    and dict: "\<forall>m. distinct (map fst (get_fscore B m (columns_of x_train)))"
  shows "map_of im f =
           (if \<exists>m\<in>set ms. f \<in> fst ` set (get_fscore B m (columns_of x_train))
            then Some (\<Sum>m\<leftarrow>ms. get_or_0 (get_fscore B m (columns_of x_train)) f)
            else None)"
proof -
  from run obtain x_te splits st where
    l: "snd (fold_loop B params (asarray x_train) y_train
               (map_option (\<lambda>x. DMatrix x None) x_te) (columns_of x_train) print_imp
               (init_locals y_train) splits) = Inr st"
    and f: "snd (finish B folds (map_option (\<lambda>x. DMatrix x None) x_te) print_imp st)
              = Inr (ms, p_tr, p_te, im, sc)"
    by (rule train_kfold_Inr)
  from finish_Inr[OF f] have fin: "ms = models st" "im = imps st" by auto
  from fold_loop_models[OF l] fin have
    "im = fold (\<lambda>m d. add_imps d (sorted_by_value (get_fscore B m (columns_of x_train)))) ms []"
    by (auto simp: init_locals_def)
  with fold_add_imps[OF dict, of ms "[]" f] show ?thesis
    by (simp add: get_or_0_def)
qed

theorem importance_totals_are_fold_sums_witness:
  "snd (train_kfold
          (demo_backend\<lparr>get_fscore :=
             \<lambda>m features. if m = 3 then [(''1'', 5)] else [(''0'', 1), (''1'', 2)]\<rparr>)
          [] (NDArray 2 [[1, 1], [2, 2]]) [3, 4] None (FoldCount 2) None 1337 False None)
     = Inr ([3, 4], [6, 7], None, [(''1'', 7), (''0'', 1)], [3, 4]) \<and>
   map_of [(''1'', 7), (''0'', 1)] ''0'' = Some 1 \<and>
   map_of [(''1'', 7), (''0'', 1)] ''1'' = Some 7 \<and>
   map_of [(''1'', 7), (''0'', 1 :: int)] ''2'' = None"
proof -
  define B where "B = demo_backend\<lparr>get_fscore :=
             \<lambda>m features. if m = 3 then [(''1'', 5)] else [(''0'', 1), (''1'', 2)]\<rparr>"
  have e: "snd (train_kfold B [] (NDArray 2 [[1, 1], [2, 2]]) [3, 4] None (FoldCount 2) None
             1337 False None)
     = Inr ([3, 4], [6, 7], None, [(''1'', 7), (''0'', 1)], [3, 4])"
    by (simp add: run_simps B_def numeral_2_eq_2)
  have d: "\<forall>m. distinct (map fst (get_fscore B m (columns_of (NDArray 2 [[1, 1], [2, 2]]))))"
    by (simp add: B_def)
  from importance_totals_are_fold_sums[OF e d, of "''0''"]
    importance_totals_are_fold_sums[OF e d, of "''1''"]
    importance_totals_are_fold_sums[OF e d, of "''2''"] e
  show ?thesis unfolding B_def by simp
qed

end
